theory Spec2Isabelle
  imports Main
begin

section \<open>The molecular graph\<close>

text \<open>
  The routine \<^verbatim>\<open>update_bonds_and_charges\<close> of \<^verbatim>\<open>prolif/utils.py\<close> works on a toolkit
  molecule: atoms in index order, bonds in insertion order. An atom carries its atomic
  number, its formal charge and the total valence the toolkit has cached for it, \<open>None\<close>
  as long as the property cache of the atom has never been computed; a bond carries its
  two atom indices and its type.
\<close>

datatype BondType = SINGLE | DOUBLE | TRIPLE | AROMATIC

record Atom =
  AtomicNum :: nat
  FormalCharge :: int
  TotalValence :: "int option"

record Bond =
  BeginAtomIdx :: nat
  EndAtomIdx :: nat
  bond_type :: BondType

record Mol =
  atoms :: "Atom list"
  bonds :: "Bond list"

text \<open>Twice the bond order, so that the aromatic order 3/2 stays a natural number.\<close>

fun order2 :: "BondType \<Rightarrow> nat" where
  "order2 SINGLE = 2"
| "order2 AROMATIC = 3"
| "order2 DOUBLE = 4"
| "order2 TRIPLE = 6"

text \<open>
  Every call the routine makes on the toolkit is recorded, in order, in a log kept beside
  the molecule. The log is what the claims about the order of calls are stated on.
  \<open>EvNextAtom a\<close> records that the loop of line 43 takes the atom \<open>a\<close> from
  \<^verbatim>\<open>mol.GetAtoms()\<close>.
\<close>

datatype event =
    EvNextAtom nat
  | EvGetTotalValence nat
  | EvGetValenceList nat
  | EvSetFormalCharge nat int
  | EvSetBondType nat nat BondType
  | EvUpdatePropertyCache bool
  | EvSanitizeMol

record state =
  mol :: Mol
  trace :: "event list"

datatype error =
    CacheNotComputed nat
  | ValenceLookupFailure nat
  | SanitizationFailure string
  | IndexError
  | AttributeError
  | InvalidAtomIdx nat

definition log :: "event \<Rightarrow> state \<Rightarrow> state" where
  "log e s = s\<lparr>trace := trace s @ [e]\<rparr>"

definition is_mutation :: "event \<Rightarrow> bool" where
  "is_mutation e = (case e of EvSetFormalCharge _ _ \<Rightarrow> True | EvSetBondType _ _ _ \<Rightarrow> True | _ \<Rightarrow> False)"

section \<open>The toolkit operations the routine calls\<close>

definition GetAtomWithIdx :: "Mol \<Rightarrow> nat \<Rightarrow> Atom option" where
  "GetAtomWithIdx m i = (if i < length (atoms m) then Some (atoms m ! i) else None)"

text \<open>\<^verbatim>\<open>atom.GetNeighbors()\<close>: the other ends of the atom's bonds, in bond order.\<close>

definition other_end :: "nat \<Rightarrow> Bond \<Rightarrow> nat list" where
  "other_end i b =
     (if BeginAtomIdx b = i then [EndAtomIdx b]
      else if EndAtomIdx b = i then [BeginAtomIdx b] else [])"

definition GetNeighbors :: "Mol \<Rightarrow> nat \<Rightarrow> nat list" where
  "GetNeighbors m i = concat (map (other_end i) (bonds m))"

definition connects :: "Bond \<Rightarrow> nat \<Rightarrow> nat \<Rightarrow> bool" where
  "connects b i j =
     (if BeginAtomIdx b = i \<and> EndAtomIdx b = j then True
      else BeginAtomIdx b = j \<and> EndAtomIdx b = i)"

text \<open>
  \<^verbatim>\<open>mol.GetBondBetweenAtoms(i, j)\<close>: the position of the first bond joining the two atoms,
  \<open>None\<close> when there is none.
\<close>

fun bond_between :: "Bond list \<Rightarrow> nat \<Rightarrow> nat \<Rightarrow> nat \<Rightarrow> nat option" where
  "bond_between [] i j k = None"
| "bond_between (b # bs) i j k =
     (if connects b i j then Some k else bond_between bs i j (Suc k))"

definition GetBondBetweenAtoms :: "Mol \<Rightarrow> nat \<Rightarrow> nat \<Rightarrow> nat option" where
  "GetBondBetweenAtoms m i j = bond_between (bonds m) i j 0"

definition set_charge :: "nat \<Rightarrow> int \<Rightarrow> Mol \<Rightarrow> Mol" where
  "set_charge i c m = m\<lparr>atoms := (atoms m)[i := (atoms m ! i)\<lparr>FormalCharge := c\<rparr>]\<rparr>"

definition SetFormalCharge :: "nat \<Rightarrow> int \<Rightarrow> state \<Rightarrow> state" where
  "SetFormalCharge i c s = log (EvSetFormalCharge i c) (s\<lparr>mol := set_charge i c (mol s)\<rparr>)"

definition set_type :: "nat \<Rightarrow> BondType \<Rightarrow> Mol \<Rightarrow> Mol" where
  "set_type k t m = m\<lparr>bonds := (bonds m)[k := (bonds m ! k)\<lparr>bond_type := t\<rparr>]\<rparr>"

text \<open>
  \<^verbatim>\<open>bond.SetBondType(t)\<close> on the bond at position \<open>k\<close>, fetched for the atoms \<open>i\<close> and
  \<open>j\<close>.
\<close>

definition SetBondType :: "nat \<Rightarrow> nat \<Rightarrow> nat \<Rightarrow> BondType \<Rightarrow> state \<Rightarrow> state" where
  "SetBondType i j k t s = log (EvSetBondType i j t) (s\<lparr>mol := set_type k t (mol s)\<rparr>)"

text \<open>
  \<^verbatim>\<open>mol.UpdatePropertyCache(strict=False)\<close>: the cached total valence of every atom is
  computed from the molecule. The toolkit's valence computation is the parameter
  \<open>calc\<close>; the recompute writes the cache and nothing else, and the permissive form
  never raises.
\<close>

definition recompute :: "(Mol \<Rightarrow> nat \<Rightarrow> int) \<Rightarrow> Mol \<Rightarrow> Mol" where
  "recompute calc m =
     m\<lparr>atoms := map (\<lambda>(i, a). a\<lparr>TotalValence := Some (calc m i)\<rparr>)
                    (zip [0..<length (atoms m)] (atoms m))\<rparr>"

definition UpdatePropertyCache :: "(Mol \<Rightarrow> nat \<Rightarrow> int) \<Rightarrow> state \<Rightarrow> state" where
  "UpdatePropertyCache calc s =
     log (EvUpdatePropertyCache False) (s\<lparr>mol := recompute calc (mol s)\<rparr>)"

section \<open>The repair pass\<close>

text \<open>
  Lines 44 to 46 (and 61 to 63 for a neighbor): the total valence of the atom is read, the
  valence list of its element is looked up (the parameter \<open>vl\<close>, \<open>None\<close> when the
  periodic table raises for the atomic number), and the list
  \<^verbatim>\<open>[v - vtot for v in valences]\<close> is built. On an atom whose property cache has never
  been computed, \<^verbatim>\<open>atom.GetTotalValence()\<close> raises the toolkit's \<^verbatim>\<open>RuntimeError\<close>, here
  \<open>CacheNotComputed\<close>, and the table is not reached. The toolkit hands out no atom
  whose index is outside the molecule; in the model such an index ends the computation
  with \<open>InvalidAtomIdx\<close>.
\<close>

definition electrons_of ::
  "(nat \<Rightarrow> int list option) \<Rightarrow> nat \<Rightarrow> state \<Rightarrow> (error + int list) \<times> state" where
  "electrons_of vl i s =
     (case GetAtomWithIdx (mol s) i of
        None \<Rightarrow> (Inl (InvalidAtomIdx i), s)
      | Some a \<Rightarrow>
          (let s1 = log (EvGetTotalValence i) s
           in case TotalValence a of
                None \<Rightarrow> (Inl (CacheNotComputed i), s1)
              | Some vtot \<Rightarrow>
                  (let s2 = log (EvGetValenceList (AtomicNum a)) s1
                   in case vl (AtomicNum a) of
                        None \<Rightarrow> (Inl (ValenceLookupFailure (AtomicNum a)), s2)
                      | Some valences \<Rightarrow> (Inr (map (\<lambda>v. v - vtot) valences), s2))))"

text \<open>
  Line 64: \<^verbatim>\<open>min(set_electrons.intersection(na_electrons), default=np.nan)\<close>, with
  \<open>None\<close> for the \<^verbatim>\<open>nan\<close> of an empty intersection.
\<close>

definition common_electrons :: "int list \<Rightarrow> int list \<Rightarrow> int option" where
  "common_electrons electrons na_electrons =
     (let shared = set electrons \<inter> set na_electrons
      in if shared = {} then None else Some (Min shared))"

text \<open>
  Lines 60 to 80, the loop over \<^verbatim>\<open>enumerate(neighbors, start=1)\<close>: \<open>n\<close> is
  \<^verbatim>\<open>len(neighbors)\<close>, \<open>i\<close> the position of the neighbor at the head of the list. The
  result is the exception raised, if any, and the state reached. \<^verbatim>\<open>electrons[0]\<close> on an
  empty list raises \<open>IndexError\<close>; \<^verbatim>\<open>bond.SetBondType\<close> on the \<^verbatim>\<open>None\<close> of a missing
  bond raises \<open>AttributeError\<close>, and a missing bond whose type is not written raises
  nothing.
\<close>

fun scan_neighbors ::
  "(nat \<Rightarrow> int list option) \<Rightarrow> (Mol \<Rightarrow> nat \<Rightarrow> int) \<Rightarrow> nat \<Rightarrow> int list \<Rightarrow> nat \<Rightarrow> nat \<Rightarrow>
     nat list \<Rightarrow> state \<Rightarrow> error option \<times> state" where
  "scan_neighbors vl calc a electrons n i [] s = (None, s)"
| "scan_neighbors vl calc a electrons n i (na # rest) s =
     (case electrons_of vl na s of
        (Inl e, s1) \<Rightarrow> (Some e, s1)
      | (Inr na_electrons, s1) \<Rightarrow>
          (case common_electrons electrons na_electrons of
             None \<Rightarrow>
               (if i = n then
                  (case electrons of
                     [] \<Rightarrow> (Some IndexError, s1)
                   | e0 # _ \<Rightarrow>
                       scan_neighbors vl calc a electrons n (Suc i) rest
                         (UpdatePropertyCache calc (SetFormalCharge a (- e0) s1)))
                else scan_neighbors vl calc a electrons n (Suc i) rest s1)
           | Some c \<Rightarrow>
               (if c = 0 then scan_neighbors vl calc a electrons n (Suc i) rest s1
                else
                  (let bond = GetBondBetweenAtoms (mol s1) a na
                   in if c = 1 then
                        (case bond of
                           None \<Rightarrow> (Some AttributeError, s1)
                         | Some k \<Rightarrow>
                             (None, UpdatePropertyCache calc (SetBondType a na k DOUBLE s1)))
                      else if c = 2 then
                        (case bond of
                           None \<Rightarrow> (Some AttributeError, s1)
                         | Some k \<Rightarrow>
                             (None, UpdatePropertyCache calc (SetBondType a na k TRIPLE s1)))
                      else (None, UpdatePropertyCache calc s1)))))"

text \<open>Lines 44 to 80: the visit of one atom.\<close>

definition visit_atom ::
  "(nat \<Rightarrow> int list option) \<Rightarrow> (Mol \<Rightarrow> nat \<Rightarrow> int) \<Rightarrow> nat \<Rightarrow> state \<Rightarrow> error option \<times> state" where
  "visit_atom vl calc a s =
     (case electrons_of vl a s of
        (Inl e, s1) \<Rightarrow> (Some e, s1)
      | (Inr electrons, s1) \<Rightarrow>
          (if length electrons = 1 \<and> hd electrons < 0 then
             (None, UpdatePropertyCache calc (SetFormalCharge a (- hd electrons) s1))
           else
             (let neighbors = GetNeighbors (mol s1) a
              in scan_neighbors vl calc a electrons (length neighbors) 1 neighbors s1)))"

text \<open>
  Line 43: the loop over the atoms, stopped by the first exception. Each turn of the loop
  logs the atom it takes.
\<close>

fun visit_atoms ::
  "(nat \<Rightarrow> int list option) \<Rightarrow> (Mol \<Rightarrow> nat \<Rightarrow> int) \<Rightarrow> nat list \<Rightarrow> state \<Rightarrow> error option \<times> state" where
  "visit_atoms vl calc [] s = (None, s)"
| "visit_atoms vl calc (a # as) s =
     (case visit_atom vl calc a (log (EvNextAtom a) s) of
        (Some e, s1) \<Rightarrow> (Some e, s1)
      | (None, s1) \<Rightarrow> visit_atoms vl calc as s1)"

definition repair_pass ::
  "(nat \<Rightarrow> int list option) \<Rightarrow> (Mol \<Rightarrow> nat \<Rightarrow> int) \<Rightarrow> Mol \<Rightarrow> error option \<times> state" where
  "repair_pass vl calc m = visit_atoms vl calc [0..<length (atoms m)] \<lparr>mol = m, trace = []\<rparr>"

text \<open>
  Lines 43 to 81: the pass, then \<^verbatim>\<open>Chem.SanitizeMol(mol)\<close>. The strict validation is the
  parameter \<open>sanitize\<close>: it raises with a diagnostic (\<open>Inl\<close>) or hands the molecule back
  as it leaves it.
\<close>

definition update_bonds_and_charges ::
  "(nat \<Rightarrow> int list option) \<Rightarrow> (Mol \<Rightarrow> nat \<Rightarrow> int) \<Rightarrow> (Mol \<Rightarrow> string + Mol) \<Rightarrow> Mol \<Rightarrow>
     error option \<times> state" where
  "update_bonds_and_charges vl calc sanitize m =
     (case repair_pass vl calc m of
        (Some e, s) \<Rightarrow> (Some e, s)
      | (None, s) \<Rightarrow>
          (let s1 = log EvSanitizeMol s
           in case sanitize (mol s1) of
                Inl diagnostic \<Rightarrow> (Some (SanitizationFailure diagnostic), s1)
              | Inr m' \<Rightarrow> (None, s1\<lparr>mol := m'\<rparr>)))"

section \<open>A concrete toolkit\<close>

text \<open>
  For evaluating the routine on concrete molecules: a periodic table, and the valence
  count of a molecule whose hydrogens are all explicit atoms (the sum of the orders of the
  atom's bonds, a half rounded up). The table has the toolkit's valence lists for
  hydrogen, carbon, nitrogen, oxygen, phosphorus, sulfur and chlorine. The toolkit has a
  list for every atomic number up to 118; for the ones not named here this table gives
  \<open>[-1]\<close>, the toolkit's list for an element without fixed valences, and the molecules
  below have no such atom. An atomic number above 118 is not in the table.
\<close>

definition table :: "nat \<Rightarrow> int list option" where
  "table z =
     (if z = 1 then Some [1]
      else if z = 6 then Some [4]
      else if z = 7 then Some [3]
      else if z = 8 then Some [2]
      else if z = 15 then Some [3, 5, 7]
      else if z = 16 then Some [2, 4, 6]
      else if z = 17 then Some [1]
      else if z \<le> 118 then Some [- 1]
      else None)"

definition incident :: "nat \<Rightarrow> Bond \<Rightarrow> bool" where
  "incident i b = (if BeginAtomIdx b = i then True else EndAtomIdx b = i)"

definition bond_sum :: "Mol \<Rightarrow> nat \<Rightarrow> int" where
  "bond_sum m i =
     (int (sum_list (map (\<lambda>b. order2 (bond_type b)) (filter (incident i) (bonds m)))) + 1) div 2"

text \<open>
  Three strict validations: one that hands every molecule back as it is, one that rejects
  every molecule, and one that, as the toolkit's aromaticity perception does for
  benzene, hands a molecule whose first six bonds are the ring 0=1-2=3-4=5-0 of
  alternating double and single bonds back with these six bonds aromatic, and any other
  molecule as it is.
\<close>

definition accept :: "Mol \<Rightarrow> string + Mol" where
  "accept m = Inr m"


definition kekule_ring :: "Bond list \<Rightarrow> bool" where
  "kekule_ring bs =
     (map (\<lambda>b. (BeginAtomIdx b, EndAtomIdx b, bond_type b)) (take 6 bs) =
        [(0, 1, DOUBLE), (1, 2, SINGLE), (2, 3, DOUBLE), (3, 4, SINGLE), (4, 5, DOUBLE),
         (5, 0, SINGLE)])"

definition perceive :: "Mol \<Rightarrow> string + Mol" where
  "perceive m =
     (if kekule_ring (bonds m) then
        Inr (m\<lparr>bonds := map (\<lambda>b. b\<lparr>bond_type := AROMATIC\<rparr>) (take 6 (bonds m)) @
                          drop 6 (bonds m)\<rparr>)
      else Inr m)"

text \<open>An atom with a computed valence, and an atom whose cache was never computed.\<close>

definition mk_atom :: "nat \<Rightarrow> int \<Rightarrow> Atom" where
  "mk_atom z v = \<lparr>AtomicNum = z, FormalCharge = 0, TotalValence = Some v\<rparr>"

definition raw_atom :: "nat \<Rightarrow> Atom" where
  "raw_atom z = \<lparr>AtomicNum = z, FormalCharge = 0, TotalValence = None\<rparr>"

definition mk_bond :: "nat \<Rightarrow> nat \<Rightarrow> BondType \<Rightarrow> Bond" where
  "mk_bond i j t = \<lparr>BeginAtomIdx = i, EndAtomIdx = j, bond_type = t\<rparr>"

text \<open>
  The molecules the theorems below are evaluated on, each with its cache up to date for
  \<open>bond_sum\<close>: a carbon triply bonded to a phosphorus that also carries a nitrogen
  (\<open>cpn\<close>); the same chain with the triple bond on the other side (\<open>cpn3\<close>); an
  ammonium nitrogen with its four hydrogens (\<open>nh4\<close>); an amide nitrogen with two
  hydrogens (\<open>nh2\<close>); formaldehyde and hydrogen cyanide with single bonds only
  (\<open>h2co\<close>, \<open>hcn\<close>); water (\<open>h2o\<close>).
\<close>

definition cpn :: Mol where
  "cpn = \<lparr>atoms = [mk_atom 6 3, mk_atom 15 4, mk_atom 7 1],
          bonds = [mk_bond 1 2 SINGLE, mk_bond 0 1 TRIPLE]\<rparr>"

definition cpn3 :: Mol where
  "cpn3 = \<lparr>atoms = [mk_atom 6 1, mk_atom 15 4, mk_atom 7 3],
           bonds = [mk_bond 0 1 SINGLE, mk_bond 1 2 TRIPLE]\<rparr>"

definition nh4 :: Mol where
  "nh4 = \<lparr>atoms = [mk_atom 7 4, mk_atom 1 1, mk_atom 1 1, mk_atom 1 1, mk_atom 1 1],
          bonds = [mk_bond 0 1 SINGLE, mk_bond 0 2 SINGLE, mk_bond 0 3 SINGLE,
                   mk_bond 0 4 SINGLE]\<rparr>"

definition nh2 :: Mol where
  "nh2 = \<lparr>atoms = [mk_atom 7 2, mk_atom 1 1, mk_atom 1 1],
          bonds = [mk_bond 0 1 SINGLE, mk_bond 0 2 SINGLE]\<rparr>"

definition h2co :: Mol where
  "h2co = \<lparr>atoms = [mk_atom 6 3, mk_atom 8 1, mk_atom 1 1, mk_atom 1 1],
           bonds = [mk_bond 0 1 SINGLE, mk_bond 0 2 SINGLE, mk_bond 0 3 SINGLE]\<rparr>"

definition hcn :: Mol where
  "hcn = \<lparr>atoms = [mk_atom 6 2, mk_atom 7 1, mk_atom 1 1],
          bonds = [mk_bond 0 1 SINGLE, mk_bond 0 2 SINGLE]\<rparr>"

definition h2o :: Mol where
  "h2o = \<lparr>atoms = [mk_atom 8 2, mk_atom 1 1, mk_atom 1 1],
          bonds = [mk_bond 0 1 SINGLE, mk_bond 0 2 SINGLE]\<rparr>"

text \<open>
  Water as it is before any property cache has been computed (\<open>h2o_raw\<close>). Two sulfur
  atoms joined by a single bond whose cached valences, 4 each, are those of an earlier
  state of the molecule and not the ones \<open>bond_sum\<close> computes (\<open>s2_stale\<close>). Benzene
  with its ring written as alternating double and single bonds, its cache up to date
  (\<open>benzene\<close>).
\<close>

definition h2o_raw :: Mol where
  "h2o_raw = \<lparr>atoms = [raw_atom 8, raw_atom 1, raw_atom 1],
              bonds = [mk_bond 0 1 SINGLE, mk_bond 0 2 SINGLE]\<rparr>"

definition s2_stale :: Mol where
  "s2_stale = \<lparr>atoms = [mk_atom 16 4, mk_atom 16 4], bonds = [mk_bond 0 1 SINGLE]\<rparr>"

definition benzene :: Mol where
  "benzene =
     \<lparr>atoms = [mk_atom 6 4, mk_atom 6 4, mk_atom 6 4, mk_atom 6 4, mk_atom 6 4, mk_atom 6 4,
               mk_atom 1 1, mk_atom 1 1, mk_atom 1 1, mk_atom 1 1, mk_atom 1 1, mk_atom 1 1],
      bonds = [mk_bond 0 1 DOUBLE, mk_bond 1 2 SINGLE, mk_bond 2 3 DOUBLE, mk_bond 3 4 SINGLE,
               mk_bond 4 5 DOUBLE, mk_bond 5 0 SINGLE,
               mk_bond 0 6 SINGLE, mk_bond 1 7 SINGLE, mk_bond 2 8 SINGLE, mk_bond 3 9 SINGLE,
               mk_bond 4 10 SINGLE, mk_bond 5 11 SINGLE]\<rparr>"

definition start :: "Mol \<Rightarrow> state" where
  "start m = \<lparr>mol = m, trace = []\<rparr>"

section \<open>Properties of a log\<close>

text \<open>A molecule is well formed when both ends of every bond are atoms of it.\<close>

definition wf_mol :: "Mol \<Rightarrow> bool" where
  "wf_mol m =
     list_all (\<lambda>b. BeginAtomIdx b < length (atoms m) \<and> EndAtomIdx b < length (atoms m))
       (bonds m)"

text \<open>The property cache of a molecule has been computed: every atom has a total valence.\<close>

definition cached :: "Mol \<Rightarrow> bool" where
  "cached m = list_all (\<lambda>a. case TotalValence a of None \<Rightarrow> False | Some v \<Rightarrow> True) (atoms m)"


definition is_read :: "event \<Rightarrow> bool" where
  "is_read e = (case e of EvGetTotalValence _ \<Rightarrow> True | EvGetValenceList _ \<Rightarrow> True | _ \<Rightarrow> False)"

text \<open>
  What the visit of atom \<open>a\<close> may log after its reads: nothing, a permissive recompute
  alone, or one charge assignment to \<open>a\<close> or one bond type written on a bond of \<open>a\<close>,
  with the permissive recompute right after it.
\<close>

fun action_tail :: "nat \<Rightarrow> event list \<Rightarrow> bool" where
  "action_tail a [] = True"
| "action_tail a [EvUpdatePropertyCache strict] = (\<not> strict)"
| "action_tail a [EvSetFormalCharge i c, EvUpdatePropertyCache strict] = (i = a \<and> \<not> strict)"
| "action_tail a [EvSetBondType i j t, EvUpdatePropertyCache strict] = (i = a \<and> \<not> strict)"
| "action_tail a es = False"

text \<open>
  The cache along a log: \<open>stale\<close> says whether a charge or a bond type has been written
  since the last recompute. The result is \<open>None\<close> when a total valence is read from a
  stale cache, and otherwise the staleness at the end of the log.
\<close>

fun cache_state :: "bool \<Rightarrow> event list \<Rightarrow> bool option" where
  "cache_state stale [] = Some stale"
| "cache_state stale (EvNextAtom a # es) = cache_state stale es"
| "cache_state stale (EvGetTotalValence i # es) = (if stale then None else cache_state stale es)"
| "cache_state stale (EvGetValenceList z # es) = cache_state stale es"
| "cache_state stale (EvSetFormalCharge i c # es) = cache_state True es"
| "cache_state stale (EvSetBondType i j t # es) = cache_state True es"
| "cache_state stale (EvUpdatePropertyCache strict # es) = cache_state False es"
| "cache_state stale (EvSanitizeMol # es) = cache_state stale es"

text \<open>Every write of a charge or bond type has the permissive recompute as the next event.\<close>

fun recompute_next :: "event list \<Rightarrow> bool" where
  "recompute_next [] = True"
| "recompute_next [e] = (\<not> is_mutation e)"
| "recompute_next (e # e' # es) =
     ((if is_mutation e then e' = EvUpdatePropertyCache False else True) \<and>
      recompute_next (e' # es))"

text \<open>
  A log is settled when no total valence was read from a stale cache, the cache is fresh
  at its end, and every write has the permissive recompute right after it.
\<close>

definition settled :: "event list \<Rightarrow> bool" where
  "settled es =
     (cache_state False es = Some False \<and> recompute_next es \<and>
      (case es of [] \<Rightarrow> True | _ \<Rightarrow> \<not> is_mutation (last es)))"

text \<open>
  How the bond list may differ after some visits: the same bonds between the same atoms,
  each with its former type or with double or triple.
\<close>

definition bonds_step :: "Bond list \<Rightarrow> Bond list \<Rightarrow> bool" where
  "bonds_step bs bs' =
     (length bs' = length bs \<and>
      (\<forall>k<length bs.
         BeginAtomIdx (bs' ! k) = BeginAtomIdx (bs ! k) \<and>
         EndAtomIdx (bs' ! k) = EndAtomIdx (bs ! k) \<and>
         (bond_type (bs' ! k) = bond_type (bs ! k) \<or> bond_type (bs' ! k) = DOUBLE \<or>
          bond_type (bs' ! k) = TRIPLE)))"


text \<open>
  Every atom already has one of the valences of its element: its deficit list contains 0.
\<close>

definition all_satisfied :: "(nat \<Rightarrow> int list option) \<Rightarrow> Mol \<Rightarrow> bool" where
  "all_satisfied vl m =
     list_all
       (\<lambda>a. case vl (AtomicNum a) of
              None \<Rightarrow> False
            | Some vs \<Rightarrow> (case TotalValence a of None \<Rightarrow> False | Some v \<Rightarrow> v \<in> set vs))
       (atoms m)"

text \<open>The events logged between an earlier state and a later one.\<close>

definition events_since :: "state \<Rightarrow> state \<Rightarrow> event list" where
  "events_since s s' = drop (length (trace s)) (trace s')"

text \<open>
  What one visit of atom \<open>a\<close> can do to the state: after some reads, nothing more; or a
  permissive recompute alone; or a charge written on \<open>a\<close> and the recompute; or the type
  of a bond of \<open>a\<close> set to double or triple and the recompute.
\<close>

definition visit_effect :: "(Mol \<Rightarrow> nat \<Rightarrow> int) \<Rightarrow> nat \<Rightarrow> state \<Rightarrow> state \<Rightarrow> bool" where
  "visit_effect calc a s s' =
     (\<exists>reads. list_all is_read reads \<and>
        (s' = \<lparr>mol = mol s, trace = trace s @ reads\<rparr> \<or>
         s' = \<lparr>mol = recompute calc (mol s),
               trace = trace s @ reads @ [EvUpdatePropertyCache False]\<rparr> \<or>
         (\<exists>c. s' = \<lparr>mol = recompute calc (set_charge a c (mol s)),
                    trace = trace s @ reads @
                      [EvSetFormalCharge a c, EvUpdatePropertyCache False]\<rparr>) \<or>
         (\<exists>j k t. (t = DOUBLE \<or> t = TRIPLE) \<and> k < length (bonds (mol s)) \<and>
              connects (bonds (mol s) ! k) a j \<and>
              s' = \<lparr>mol = recompute calc (set_type k t (mol s)),
                    trace = trace s @ reads @
                      [EvSetBondType a j t, EvUpdatePropertyCache False]\<rparr>)))"

section \<open>Basic facts about the operations\<close>

lemma map_update_same: "f y = f (xs ! i) \<Longrightarrow> map f (xs[i := y]) = map f xs"
  by (induction xs arbitrary: i) (auto simp: nth_Cons split: nat.splits)

lemma mol_log [simp]: "mol (log e s) = mol s"
  by (simp add: log_def)

lemma trace_log [simp]: "trace (log e s) = trace s @ [e]"
  by (simp add: log_def)

lemma bonds_recompute [simp]: "bonds (recompute calc m) = bonds m"
  by (simp add: recompute_def)

lemma length_atoms_recompute [simp]: "length (atoms (recompute calc m)) = length (atoms m)"
  by (simp add: recompute_def)

lemma atom_recompute:
  "i < length (atoms m) \<Longrightarrow>
   atoms (recompute calc m) ! i = (atoms m ! i)\<lparr>TotalValence := Some (calc m i)\<rparr>"
  by (simp add: recompute_def)

lemma charges_recompute [simp]:
  "map FormalCharge (atoms (recompute calc m)) = map FormalCharge (atoms m)"
  by (rule nth_equalityI) (simp_all add: atom_recompute)

lemma numbers_recompute [simp]:
  "map AtomicNum (atoms (recompute calc m)) = map AtomicNum (atoms m)"
  by (rule nth_equalityI) (simp_all add: atom_recompute)

lemma bonds_set_charge [simp]: "bonds (set_charge i c m) = bonds m"
  by (simp add: set_charge_def)

lemma length_atoms_set_charge [simp]: "length (atoms (set_charge i c m)) = length (atoms m)"
  by (simp add: set_charge_def)

lemma numbers_set_charge [simp]:
  "map AtomicNum (atoms (set_charge i c m)) = map AtomicNum (atoms m)"
  by (simp add: set_charge_def map_update_same)

lemma charge_set_charge:
  "i < length (atoms m) \<Longrightarrow> FormalCharge (atoms (set_charge i c m) ! i) = c"
  by (simp add: set_charge_def)

lemma atoms_set_type [simp]: "atoms (set_type k t m) = atoms m"
  by (simp add: set_type_def)

lemma length_bonds_set_type [simp]: "length (bonds (set_type k t m)) = length (bonds m)"
  by (simp add: set_type_def)

lemma begin_set_type [simp]:
  "map BeginAtomIdx (bonds (set_type k t m)) = map BeginAtomIdx (bonds m)"
  by (simp add: set_type_def map_update_same)

lemma end_set_type [simp]:
  "map EndAtomIdx (bonds (set_type k t m)) = map EndAtomIdx (bonds m)"
  by (simp add: set_type_def map_update_same)

lemma type_set_type:
  "j < length (bonds m) \<Longrightarrow>
   bond_type (bonds (set_type k t m) ! j) = (if j = k then t else bond_type (bonds m ! j))"
  by (simp add: set_type_def nth_list_update)

lemma mol_SetFormalCharge [simp]: "mol (SetFormalCharge i c s) = set_charge i c (mol s)"
  by (simp add: SetFormalCharge_def)

lemma trace_SetFormalCharge [simp]:
  "trace (SetFormalCharge i c s) = trace s @ [EvSetFormalCharge i c]"
  by (simp add: SetFormalCharge_def)

lemma mol_SetBondType [simp]: "mol (SetBondType i j k t s) = set_type k t (mol s)"
  by (simp add: SetBondType_def)

lemma trace_SetBondType [simp]:
  "trace (SetBondType i j k t s) = trace s @ [EvSetBondType i j t]"
  by (simp add: SetBondType_def)

lemma mol_UpdatePropertyCache [simp]:
  "mol (UpdatePropertyCache calc s) = recompute calc (mol s)"
  by (simp add: UpdatePropertyCache_def)

lemma trace_UpdatePropertyCache [simp]:
  "trace (UpdatePropertyCache calc s) = trace s @ [EvUpdatePropertyCache False]"
  by (simp add: UpdatePropertyCache_def)

lemma electrons_of_state:
  "electrons_of vl i s = (r, s1) \<Longrightarrow> i < length (atoms (mol s)) \<Longrightarrow>
   mol s1 = mol s \<and>
   trace s1 =
     (case TotalValence (atoms (mol s) ! i) of
        None \<Rightarrow> trace s @ [EvGetTotalValence i]
      | Some v \<Rightarrow>
          trace s @ [EvGetTotalValence i, EvGetValenceList (AtomicNum (atoms (mol s) ! i))])"
  by (auto simp: electrons_of_def GetAtomWithIdx_def Let_def split: option.splits)

lemma electrons_of_mol: "electrons_of vl i s = (r, s1) \<Longrightarrow> mol s1 = mol s"
  by (auto simp: electrons_of_def GetAtomWithIdx_def Let_def split: option.splits)

lemma bond_between_Some:
  "bond_between bs i j k = Some p \<Longrightarrow> \<exists>q. p = k + q \<and> q < length bs \<and> connects (bs ! q) i j"
proof (induction bs arbitrary: k)
  case Nil
  then show ?case by simp
next
  case (Cons b bs)
  show ?case
  proof (cases "connects b i j")
    case True
    with Cons.prems have "p = k + 0 \<and> 0 < length (b # bs) \<and> connects ((b # bs) ! 0) i j"
      by simp
    then show ?thesis by blast
  next
    case False
    with Cons.prems have "bond_between bs i j (Suc k) = Some p" by simp
    from Cons.IH [OF this] obtain q where "p = Suc k + q" "q < length bs" "connects (bs ! q) i j"
      by blast
    then have "p = k + Suc q \<and> Suc q < length (b # bs) \<and> connects ((b # bs) ! Suc q) i j"
      by simp
    then show ?thesis by blast
  qed
qed

lemma GetBondBetweenAtoms_Some:
  "GetBondBetweenAtoms m i j = Some p \<Longrightarrow> p < length (bonds m) \<and> connects (bonds m ! p) i j"
  using bond_between_Some [of "bonds m" i j 0 p] by (auto simp: GetBondBetweenAtoms_def)

lemma bond_between_None:
  "bond_between bs i j k = None \<Longrightarrow> b \<in> set bs \<Longrightarrow> \<not> connects b i j"
  by (induction bs arbitrary: k) (auto split: if_splits)

lemma neighbor_bond:
  assumes "j \<in> set (GetNeighbors m i)"
  shows "\<exists>p. GetBondBetweenAtoms m i j = Some p"
proof -
  from assms obtain b where b: "b \<in> set (bonds m)" "j \<in> set (other_end i b)"
    by (auto simp: GetNeighbors_def)
  then have "connects b i j"
    by (auto simp: other_end_def connects_def split: if_splits)
  with b(1) have "bond_between (bonds m) i j 0 \<noteq> None"
    using bond_between_None by blast
  then show ?thesis by (auto simp: GetBondBetweenAtoms_def)
qed

section \<open>The valence deficit calculation\<close>

text \<open>
  Claim C5 says that the only way the deficit calculation fails is the lookup failure of
  the periodic table. That is not so: on an atom whose property cache has never been
  computed the read of the total valence raises first, although the table knows the
  element. The oxygen of \<open>h2o_raw\<close> is such an atom.
\<close>

theorem deficit_only_lookup_failure_counterexample:
  "0 < length (atoms (mol (start h2o_raw))) \<and>
   table (AtomicNum (atoms (mol (start h2o_raw)) ! 0)) = Some [2] \<and>
   fst (electrons_of table 0 (start h2o_raw)) = Inl (CacheNotComputed 0) \<and>
   trace (snd (electrons_of table 0 (start h2o_raw))) = [EvGetTotalValence 0]"
  by (simp add: start_def h2o_raw_def raw_atom_def table_def electrons_of_def GetAtomWithIdx_def)

text \<open>
  Claim C5 as amended. For an atom of the molecule whose total valence \<open>vtot\<close> has been
  computed, the deficit calculation returns the list of \<open>v - vtot\<close> for every valence
  \<open>v\<close> the periodic table gives for the atom's element, in the table's order, and it
  fails only when the table fails for the atomic number, with that failure. On an atom
  whose total valence has never been computed it fails at the read of the total valence
  and does not reach the table. In every case it leaves the molecule as it is.
\<close>

theorem electrons_of_deficits:
  assumes "i < length (atoms (mol s))"
  shows "mol (snd (electrons_of vl i s)) = mol s \<and>
         (case TotalValence (atoms (mol s) ! i) of
            None \<Rightarrow>
              fst (electrons_of vl i s) = Inl (CacheNotComputed i) \<and>
              trace (snd (electrons_of vl i s)) = trace s @ [EvGetTotalValence i]
          | Some vtot \<Rightarrow>
              trace (snd (electrons_of vl i s)) =
                trace s @
                [EvGetTotalValence i, EvGetValenceList (AtomicNum (atoms (mol s) ! i))] \<and>
              fst (electrons_of vl i s) =
                (case vl (AtomicNum (atoms (mol s) ! i)) of
                   None \<Rightarrow> Inl (ValenceLookupFailure (AtomicNum (atoms (mol s) ! i)))
                 | Some valences \<Rightarrow> Inr (map (\<lambda>v. v - vtot) valences)))"
  using assms
  by (auto simp: electrons_of_def GetAtomWithIdx_def Let_def split: option.splits)

text \<open>
  On the phosphorus of \<open>cpn\<close> (total valence 4, valences 3, 5 and 7) the deficits are
  \<open>-1\<close>, 1 and 3.
\<close>

theorem electrons_of_deficits_witness:
  "1 < length (atoms (mol (start cpn))) \<and>
   mol (snd (electrons_of table 1 (start cpn))) = cpn \<and>
   trace (snd (electrons_of table 1 (start cpn))) = [EvGetTotalValence 1, EvGetValenceList 15] \<and>
   fst (electrons_of table 1 (start cpn)) = Inr [- 1, 1, 3]"
proof -
  have h: "1 < length (atoms (mol (start cpn)))"
    by (simp add: start_def cpn_def)
  show ?thesis
    using h electrons_of_deficits [OF h, of table]
    by (simp add: start_def cpn_def mk_atom_def table_def)
qed

lemma charge_recompute:
  "i < length (atoms m) \<Longrightarrow> FormalCharge (atoms (recompute calc m) ! i) = FormalCharge (atoms m ! i)"
  by (simp add: atom_recompute)

lemma electrons_of_Inr:
  assumes "fst (electrons_of vl i s) = Inr es"
  shows "i < length (atoms (mol s)) \<and>
         mol (snd (electrons_of vl i s)) = mol s \<and>
         trace (snd (electrons_of vl i s)) =
           trace s @ [EvGetTotalValence i, EvGetValenceList (AtomicNum (atoms (mol s) ! i))] \<and>
         (\<exists>vs T. TotalValence (atoms (mol s) ! i) = Some T \<and>
               vl (AtomicNum (atoms (mol s) ! i)) = Some vs \<and> es = map (\<lambda>v. v - T) vs)"
  using assms
  by (auto simp: electrons_of_def GetAtomWithIdx_def Let_def split: option.splits if_splits)

section \<open>The single-option-negative case\<close>

text \<open>
  Claim C2. When the element of the visited atom has exactly one valence \<open>V\<close> and the
  atom's total valence \<open>T\<close> is above it, the visit sets the atom's formal charge to
  \<open>T - V\<close> and recomputes the cache permissively right away; it reads no neighbor and
  leaves every bond as it is.
\<close>

theorem single_option_negative:
  assumes "a < length (atoms (mol s))"
    and "vl (AtomicNum (atoms (mol s) ! a)) = Some [V]"
    and "TotalValence (atoms (mol s) ! a) = Some T"
    and "V < T"
  shows "fst (visit_atom vl calc a s) = None \<and>
         mol (snd (visit_atom vl calc a s)) = recompute calc (set_charge a (T - V) (mol s)) \<and>
         FormalCharge (atoms (mol (snd (visit_atom vl calc a s))) ! a) = T - V \<and>
         bonds (mol (snd (visit_atom vl calc a s))) = bonds (mol s) \<and>
         trace (snd (visit_atom vl calc a s)) =
           trace s @
           [EvGetTotalValence a, EvGetValenceList (AtomicNum (atoms (mol s) ! a)),
            EvSetFormalCharge a (T - V), EvUpdatePropertyCache False]"
proof -
  let ?s1 = "log (EvGetValenceList (AtomicNum (atoms (mol s) ! a))) (log (EvGetTotalValence a) s)"
  have e: "electrons_of vl a s = (Inr [V - T], ?s1)"
    using assms(1-3) by (simp add: electrons_of_def GetAtomWithIdx_def Let_def)
  have v: "visit_atom vl calc a s =
             (None, UpdatePropertyCache calc (SetFormalCharge a (T - V) ?s1))"
    using assms(4) by (simp add: visit_atom_def e)
  show ?thesis
    using assms(1) by (simp add: v charge_recompute charge_set_charge)
qed

text \<open>The nitrogen of \<open>nh4\<close>: one valence, 3, and total valence 4; it gets charge 1.\<close>

theorem single_option_negative_witness:
  "0 < length (atoms (mol (start nh4))) \<and>
   table (AtomicNum (atoms (mol (start nh4)) ! 0)) = Some [3] \<and>
   TotalValence (atoms (mol (start nh4)) ! 0) = Some 4 \<and>
   (3 :: int) < 4 \<and>
   fst (visit_atom table bond_sum 0 (start nh4)) = None \<and>
   FormalCharge (atoms (mol (snd (visit_atom table bond_sum 0 (start nh4)))) ! 0) = 1 \<and>
   bonds (mol (snd (visit_atom table bond_sum 0 (start nh4)))) = bonds nh4 \<and>
   trace (snd (visit_atom table bond_sum 0 (start nh4))) =
     [EvGetTotalValence 0, EvGetValenceList 7, EvSetFormalCharge 0 1, EvUpdatePropertyCache False]"
proof -
  have h1: "0 < length (atoms (mol (start nh4)))"
    by (simp add: start_def nh4_def)
  have h2: "table (AtomicNum (atoms (mol (start nh4)) ! 0)) = Some [3]"
    by (simp add: start_def nh4_def mk_atom_def table_def)
  have h3: "TotalValence (atoms (mol (start nh4)) ! 0) = Some 4"
    by (simp add: start_def nh4_def mk_atom_def)
  have h4: "(3 :: int) < 4"
    by simp
  have c: "AtomicNum (atoms nh4 ! 0) = 7"
    "mol (start nh4) = nh4" "trace (start nh4) = []" "atoms nh4 \<noteq> []"
    by (simp_all add: start_def nh4_def mk_atom_def)
  show ?thesis
    using h1 h2 h3
      single_option_negative [where a = 0 and s = "start nh4" and vl = table and V = 3
        and T = 4 and calc = bond_sum, OF h1 h2 h3 h4]
    by (simp add: c charge_recompute charge_set_charge)
qed

lemma scan_bond_case:
  assumes "fst (electrons_of vl na s) = Inr nes"
    and "common_electrons es nes = Some c"
    and "c \<noteq> 0"
    and "GetBondBetweenAtoms (mol s) a na = Some k"
  shows "scan_neighbors vl calc a es n i (na # rest) s =
           (None,
            UpdatePropertyCache calc
              (if c = 1 then SetBondType a na k DOUBLE (snd (electrons_of vl na s))
               else if c = 2 then SetBondType a na k TRIPLE (snd (electrons_of vl na s))
               else snd (electrons_of vl na s)))"
proof -
  obtain s1 where s1: "electrons_of vl na s = (Inr nes, s1)"
    using assms(1) by (cases "electrons_of vl na s") simp
  then have "mol s1 = mol s"
    by (rule electrons_of_mol)
  with assms(2-4) s1 show ?thesis
    by simp
qed

lemma type_set_type_other:
  "j \<noteq> k \<Longrightarrow> bonds (set_type k t m) ! j = bonds m ! j"
  by (simp add: set_type_def)

section \<open>A shared deficit of one or two\<close>

text \<open>
  Claim C1. In the neighbor scan of atom \<open>a\<close>, when the neighbor \<open>na\<close> at the head of
  the scan has the shared deficit \<open>common\<close> 1 with \<open>a\<close>, the bond between them is set
  to double; when it is 2, to triple. In both cases the permissive recompute follows, the
  scan ends there whatever neighbors remain (they are not read), no other bond changes and
  no formal charge changes.
\<close>

theorem shared_deficit_upgrades_bond:
  assumes "na \<in> set (GetNeighbors (mol s) a)"
    and "fst (electrons_of vl na s) = Inr nes"
    and "common_electrons es nes = Some c"
    and "c = 1 \<or> c = 2"
  shows "\<exists>k t. GetBondBetweenAtoms (mol s) a na = Some k \<and> k < length (bonds (mol s)) \<and>
           connects (bonds (mol s) ! k) a na \<and>
           t = (if c = 1 then DOUBLE else TRIPLE) \<and>
           fst (scan_neighbors vl calc a es n i (na # rest) s) = None \<and>
           mol (snd (scan_neighbors vl calc a es n i (na # rest) s)) =
             recompute calc (set_type k t (mol s)) \<and>
           bond_type (bonds (mol (snd (scan_neighbors vl calc a es n i (na # rest) s))) ! k) = t \<and>
           (\<forall>j. j \<noteq> k \<longrightarrow>
              bonds (mol (snd (scan_neighbors vl calc a es n i (na # rest) s))) ! j =
              bonds (mol s) ! j) \<and>
           map FormalCharge (atoms (mol (snd (scan_neighbors vl calc a es n i (na # rest) s)))) =
             map FormalCharge (atoms (mol s)) \<and>
           trace (snd (scan_neighbors vl calc a es n i (na # rest) s)) =
             trace s @
             [EvGetTotalValence na, EvGetValenceList (AtomicNum (atoms (mol s) ! na)),
              EvSetBondType a na t, EvUpdatePropertyCache False]"
proof -
  from neighbor_bond [OF assms(1)] obtain k where k: "GetBondBetweenAtoms (mol s) a na = Some k"
    by blast
  note kk = GetBondBetweenAtoms_Some [OF k]
  note e = electrons_of_Inr [OF assms(2)]
  from assms(4) have c0: "c \<noteq> 0" by auto
  note sc = scan_bond_case [OF assms(2,3) c0 k, of calc n i rest]
  show ?thesis
  proof (cases "c = 1")
    case True
    then show ?thesis
      using k kk e by (simp add: sc type_set_type type_set_type_other del: scan_neighbors.simps)
  next
    case False
    with assms(4) have "c = 2" by simp
    then show ?thesis
      using k kk e by (simp add: sc type_set_type type_set_type_other del: scan_neighbors.simps)
  qed
qed

text \<open>
  Formaldehyde with single bonds: carbon and oxygen share the deficit 1, and the scan of
  the carbon sets their bond to double without reading the two hydrogens. Hydrogen
  cyanide with single bonds: carbon and nitrogen share the deficit 2, and their bond
  becomes triple.
\<close>

theorem shared_deficit_upgrades_bond_witness:
  "1 \<in> set (GetNeighbors (mol (start h2co)) 0) \<and>
   fst (electrons_of table 1 (start h2co)) = Inr [1] \<and>
   common_electrons [1] [1] = Some 1 \<and>
   GetBondBetweenAtoms (mol (start h2co)) 0 1 = Some 0 \<and>
   bond_type (bonds (mol (snd (scan_neighbors table bond_sum 0 [1] 3 1 [1, 2, 3] (start h2co)))) ! 0)
     = DOUBLE \<and>
   trace (snd (scan_neighbors table bond_sum 0 [1] 3 1 [1, 2, 3] (start h2co))) =
     [EvGetTotalValence 1, EvGetValenceList 8, EvSetBondType 0 1 DOUBLE,
      EvUpdatePropertyCache False] \<and>
   1 \<in> set (GetNeighbors (mol (start hcn)) 0) \<and>
   fst (electrons_of table 1 (start hcn)) = Inr [2] \<and>
   common_electrons [2] [2] = Some 2 \<and>
   GetBondBetweenAtoms (mol (start hcn)) 0 1 = Some 0 \<and>
   bond_type (bonds (mol (snd (scan_neighbors table bond_sum 0 [2] 2 1 [1, 2] (start hcn)))) ! 0)
     = TRIPLE \<and>
   trace (snd (scan_neighbors table bond_sum 0 [2] 2 1 [1, 2] (start hcn))) =
     [EvGetTotalValence 1, EvGetValenceList 7, EvSetBondType 0 1 TRIPLE,
      EvUpdatePropertyCache False]"
proof -
  have a1: "1 \<in> set (GetNeighbors (mol (start h2co)) 0)"
    by (simp add: start_def h2co_def mk_bond_def GetNeighbors_def other_end_def)
  have a2: "fst (electrons_of table 1 (start h2co)) = Inr [1]"
    by (simp add: start_def h2co_def mk_atom_def electrons_of_def GetAtomWithIdx_def table_def)
  have a3: "common_electrons [1] [1] = Some 1"
    by (simp add: common_electrons_def)
  have a4: "(1::int) = 1 \<or> (1::int) = 2"
    by simp
  have b1: "1 \<in> set (GetNeighbors (mol (start hcn)) 0)"
    by (simp add: start_def hcn_def mk_bond_def GetNeighbors_def other_end_def)
  have b2: "fst (electrons_of table 1 (start hcn)) = Inr [2]"
    by (simp add: start_def hcn_def mk_atom_def electrons_of_def GetAtomWithIdx_def table_def)
  have b3: "common_electrons [2] [2] = Some 2"
    by (simp add: common_electrons_def)
  have b4: "(2::int) = 1 \<or> (2::int) = 2"
    by simp
  have c: "GetBondBetweenAtoms (mol (start h2co)) 0 1 = Some 0"
    "AtomicNum (atoms (mol (start h2co)) ! 1) = 8" "trace (start h2co) = []"
    by (simp_all add: start_def h2co_def mk_bond_def mk_atom_def GetBondBetweenAtoms_def
        connects_def)
  have d: "GetBondBetweenAtoms (mol (start hcn)) 0 1 = Some 0"
    "AtomicNum (atoms (mol (start hcn)) ! 1) = 7" "trace (start hcn) = []"
    by (simp_all add: start_def hcn_def mk_bond_def mk_atom_def GetBondBetweenAtoms_def
        connects_def)
  from shared_deficit_upgrades_bond [OF a1 a2 a3 a4, of bond_sum 3 1 "[2, 3]"]
  obtain k where k: "GetBondBetweenAtoms (mol (start h2co)) 0 1 = Some k"
    "bond_type (bonds (mol (snd (scan_neighbors table bond_sum 0 [1] 3 1 [1, 2, 3] (start h2co)))) ! k)
       = DOUBLE"
    "trace (snd (scan_neighbors table bond_sum 0 [1] 3 1 [1, 2, 3] (start h2co))) =
       trace (start h2co) @
       [EvGetTotalValence 1, EvGetValenceList (AtomicNum (atoms (mol (start h2co)) ! 1)),
        EvSetBondType 0 1 DOUBLE, EvUpdatePropertyCache False]"
    by auto
  from k(1) c(1) have k0: "k = 0" by simp
  from shared_deficit_upgrades_bond [OF b1 b2 b3 b4, of bond_sum 2 1 "[2]"]
  obtain l where l: "GetBondBetweenAtoms (mol (start hcn)) 0 1 = Some l"
    "bond_type (bonds (mol (snd (scan_neighbors table bond_sum 0 [2] 2 1 [1, 2] (start hcn)))) ! l)
       = TRIPLE"
    "trace (snd (scan_neighbors table bond_sum 0 [2] 2 1 [1, 2] (start hcn))) =
       trace (start hcn) @
       [EvGetTotalValence 1, EvGetValenceList (AtomicNum (atoms (mol (start hcn)) ! 1)),
        EvSetBondType 0 1 TRIPLE, EvUpdatePropertyCache False]"
    by auto
  from l(1) d(1) have l0: "l = 0" by simp
  from k(2,3) l(2,3) have
    "bond_type (bonds (mol (snd (scan_neighbors table bond_sum 0 [1] 3 1 [1, 2, 3] (start h2co)))) ! 0)
       = DOUBLE"
    "trace (snd (scan_neighbors table bond_sum 0 [1] 3 1 [1, 2, 3] (start h2co))) =
       [EvGetTotalValence 1, EvGetValenceList 8, EvSetBondType 0 1 DOUBLE,
        EvUpdatePropertyCache False]"
    "bond_type (bonds (mol (snd (scan_neighbors table bond_sum 0 [2] 2 1 [1, 2] (start hcn)))) ! 0)
       = TRIPLE"
    "trace (snd (scan_neighbors table bond_sum 0 [2] 2 1 [1, 2] (start hcn))) =
       [EvGetTotalValence 1, EvGetValenceList 7, EvSetBondType 0 1 TRIPLE,
        EvUpdatePropertyCache False]"
    unfolding k0 l0 c d by simp_all
  with a1 a2 a3 b1 b2 b3 c(1) d(1) show ?thesis
    by blast
qed

declare scan_neighbors.simps [simp del]

lemma common_electrons_None: "common_electrons es nes = None \<longleftrightarrow> set es \<inter> set nes = {}"
  by (simp add: common_electrons_def Let_def)

lemma common_electrons_Some:
  "common_electrons es nes = Some c \<longleftrightarrow>
     c \<in> set es \<and> c \<in> set nes \<and> (\<forall>d. d \<in> set es \<and> d \<in> set nes \<longrightarrow> c \<le> d)"
proof (cases "set es \<inter> set nes = {}")
  case True
  then show ?thesis by (auto simp: common_electrons_def Let_def)
next
  case False
  have fin: "finite (set es \<inter> set nes)" by simp
  from False have eq: "common_electrons es nes = Some (Min (set es \<inter> set nes))"
    by (simp add: common_electrons_def Let_def)
  show ?thesis
  proof
    assume "common_electrons es nes = Some c"
    with eq have c: "c = Min (set es \<inter> set nes)" by simp
    from Min_in [OF fin False] c have "c \<in> set es \<inter> set nes" by simp
    moreover have "\<forall>d. d \<in> set es \<and> d \<in> set nes \<longrightarrow> c \<le> d"
      using fin c by (auto intro: Min_le)
    ultimately show "c \<in> set es \<and> c \<in> set nes \<and> (\<forall>d. d \<in> set es \<and> d \<in> set nes \<longrightarrow> c \<le> d)"
      by simp
  next
    assume a: "c \<in> set es \<and> c \<in> set nes \<and> (\<forall>d. d \<in> set es \<and> d \<in> set nes \<longrightarrow> c \<le> d)"
    then have "Min (set es \<inter> set nes) = c"
      by (intro Min_eqI) auto
    with eq show "common_electrons es nes = Some c" by simp
  qed
qed

lemma scan_silent_case:
  assumes "fst (electrons_of vl na s) = Inr nes"
    and "common_electrons es nes = Some c"
    and "c \<noteq> 0" and "c \<noteq> 1" and "c \<noteq> 2"
  shows "scan_neighbors vl calc a es n i (na # rest) s =
           (None, UpdatePropertyCache calc (snd (electrons_of vl na s)))"
proof -
  obtain s1 where s1: "electrons_of vl na s = (Inr nes, s1)"
    using assms(1) by (cases "electrons_of vl na s") simp
  with assms(2-5) show ?thesis
    by (simp add: scan_neighbors.simps)
qed

section \<open>The shared deficit and its other values\<close>

text \<open>
  Claim C10. The value \<open>common\<close> for an atom and a neighbor is the least deficit that
  occurs in both deficit lists, and there is none exactly when the lists share no value.
  In the neighbor scan of atom \<open>a\<close>, when \<open>common\<close> for the neighbor \<open>na\<close> at the head
  of the scan is neither 0 nor 1 nor 2, the scan ends there whatever neighbors remain: no
  bond type and no charge is written, and only the permissive recompute is logged after
  the two reads.
\<close>

theorem common_minimum_and_silent_stop:
  "(common_electrons es nes = None \<longleftrightarrow> set es \<inter> set nes = {}) \<and>
   (common_electrons es nes = Some c \<longleftrightarrow>
      c \<in> set es \<and> c \<in> set nes \<and> (\<forall>d. d \<in> set es \<and> d \<in> set nes \<longrightarrow> c \<le> d)) \<and>
   (fst (electrons_of vl na s) = Inr nes \<and>
    common_electrons es nes = Some c \<and> c \<noteq> 0 \<and> c \<noteq> 1 \<and> c \<noteq> 2 \<longrightarrow>
      fst (scan_neighbors vl calc a es n i (na # rest) s) = None \<and>
      mol (snd (scan_neighbors vl calc a es n i (na # rest) s)) = recompute calc (mol s) \<and>
      bonds (mol (snd (scan_neighbors vl calc a es n i (na # rest) s))) = bonds (mol s) \<and>
      map FormalCharge (atoms (mol (snd (scan_neighbors vl calc a es n i (na # rest) s)))) =
        map FormalCharge (atoms (mol s)) \<and>
      trace (snd (scan_neighbors vl calc a es n i (na # rest) s)) =
        trace s @
        [EvGetTotalValence na, EvGetValenceList (AtomicNum (atoms (mol s) ! na)),
         EvUpdatePropertyCache False])"
proof -
  have "fst (scan_neighbors vl calc a es n i (na # rest) s) = None \<and>
      mol (snd (scan_neighbors vl calc a es n i (na # rest) s)) = recompute calc (mol s) \<and>
      bonds (mol (snd (scan_neighbors vl calc a es n i (na # rest) s))) = bonds (mol s) \<and>
      map FormalCharge (atoms (mol (snd (scan_neighbors vl calc a es n i (na # rest) s)))) =
        map FormalCharge (atoms (mol s)) \<and>
      trace (snd (scan_neighbors vl calc a es n i (na # rest) s)) =
        trace s @
        [EvGetTotalValence na, EvGetValenceList (AtomicNum (atoms (mol s) ! na)),
         EvUpdatePropertyCache False]"
    if h: "fst (electrons_of vl na s) = Inr nes"
      "common_electrons es nes = Some c" "c \<noteq> 0" "c \<noteq> 1" "c \<noteq> 2"
  proof -
    note e = electrons_of_Inr [OF h(1)]
    note sc = scan_silent_case [OF h, of calc a n i rest]
    show ?thesis
      using e by (simp add: sc)
  qed
  then show ?thesis
    using common_electrons_None [of es nes] common_electrons_Some [of es nes c] by blast
qed

text \<open>
  In \<open>cpn3\<close> the carbon has the deficit 3 and the phosphorus the deficits \<open>-1\<close>, 1 and
  3: \<open>common\<close> is 3, and the scan of the carbon stops with the recompute alone. The
  deficits \<open>-1\<close>, 1, 3 and 0 share nothing.
\<close>

theorem common_minimum_and_silent_stop_witness:
  "common_electrons [- 1, 1, 3] [0] = None \<and>
   common_electrons [3] [- 1, 1, 3] = Some 3 \<and>
   1 \<in> set (GetNeighbors (mol (start cpn3)) 0) \<and>
   fst (electrons_of table 1 (start cpn3)) = Inr [- 1, 1, 3] \<and>
   fst (scan_neighbors table bond_sum 0 [3] 1 1 [1] (start cpn3)) = None \<and>
   mol (snd (scan_neighbors table bond_sum 0 [3] 1 1 [1] (start cpn3))) = cpn3 \<and>
   trace (snd (scan_neighbors table bond_sum 0 [3] 1 1 [1] (start cpn3))) =
     [EvGetTotalValence 1, EvGetValenceList 15, EvUpdatePropertyCache False]"
proof -
  have a1: "1 \<in> set (GetNeighbors (mol (start cpn3)) 0)"
    by (simp add: start_def cpn3_def mk_bond_def GetNeighbors_def other_end_def)
  have a2: "fst (electrons_of table 1 (start cpn3)) = Inr [- 1, 1, 3]"
    by (simp add: start_def cpn3_def mk_atom_def electrons_of_def GetAtomWithIdx_def table_def)
  have a3: "common_electrons [3] [- 1, 1, 3] = Some 3"
    by (simp add: common_electrons_def)
  have a4: "common_electrons [- 1, 1, 3] [0] = None"
    by (simp add: common_electrons_def)
  have c: "AtomicNum (atoms cpn3 ! Suc 0) = 15" "trace (start cpn3) = []"
    "mol (start cpn3) = cpn3"
    by (simp_all add: start_def cpn3_def mk_atom_def)
  have f: "recompute bond_sum cpn3 = cpn3"
    by code_simp
  from common_minimum_and_silent_stop [of "[3]" "[- 1, 1, 3]" 3 table 1 "start cpn3"
      bond_sum 0 1 1 "[]"] a2 a3
  have "fst (scan_neighbors table bond_sum 0 [3] 1 1 [1] (start cpn3)) = None \<and>
      mol (snd (scan_neighbors table bond_sum 0 [3] 1 1 [1] (start cpn3))) =
        recompute bond_sum (mol (start cpn3)) \<and>
      trace (snd (scan_neighbors table bond_sum 0 [3] 1 1 [1] (start cpn3))) =
        trace (start cpn3) @
        [EvGetTotalValence 1, EvGetValenceList (AtomicNum (atoms (mol (start cpn3)) ! 1)),
         EvUpdatePropertyCache False]"
    by simp
  then have "fst (scan_neighbors table bond_sum 0 [3] 1 1 [1] (start cpn3)) = None \<and>
      mol (snd (scan_neighbors table bond_sum 0 [3] 1 1 [1] (start cpn3))) = cpn3 \<and>
      trace (snd (scan_neighbors table bond_sum 0 [3] 1 1 [1] (start cpn3))) =
        [EvGetTotalValence 1, EvGetValenceList 15, EvUpdatePropertyCache False]"
    by (simp add: c f)
  with a1 a2 a3 a4 show ?thesis
    by blast
qed

lemma scan_none_case:
  assumes "fst (electrons_of vl na s) = Inr nes"
    and "common_electrons es nes = None"
  shows "scan_neighbors vl calc a es n i (na # rest) s =
           (if i = n then
              (case es of
                 [] \<Rightarrow> (Some IndexError, snd (electrons_of vl na s))
               | e0 # _ \<Rightarrow>
                   scan_neighbors vl calc a es n (Suc i) rest
                     (UpdatePropertyCache calc
                        (SetFormalCharge a (- e0) (snd (electrons_of vl na s)))))
            else scan_neighbors vl calc a es n (Suc i) rest (snd (electrons_of vl na s)))"
proof -
  obtain s1 where s1: "electrons_of vl na s = (Inr nes, s1)"
    using assms(1) by (cases "electrons_of vl na s") simp
  with assms(2) show ?thesis
    by (simp add: scan_neighbors.simps split: list.split)
qed

section \<open>The empty intersection\<close>

text \<open>
  Claim C3. In the neighbor scan of atom \<open>a\<close>, whose deficit list starts with \<open>e0\<close>,
  let the neighbor \<open>na\<close> at position \<open>i\<close> of \<open>n\<close> share no deficit with \<open>a\<close>. When
  \<open>na\<close> is the last neighbor, \<open>a\<close> gets the formal charge \<open>- e0\<close>, the permissive
  recompute follows, and no bond changes. When neighbors remain after \<open>na\<close>, nothing is
  written for it and the scan goes on with the next neighbor.
\<close>

theorem empty_intersection_fallback:
  assumes "a < length (atoms (mol s))"
    and "fst (electrons_of vl na s) = Inr nes"
    and "set (e0 # es) \<inter> set nes = {}"
    and "i + length rest = n"
  shows "(rest = [] \<longrightarrow>
            fst (scan_neighbors vl calc a (e0 # es) n i (na # rest) s) = None \<and>
            mol (snd (scan_neighbors vl calc a (e0 # es) n i (na # rest) s)) =
              recompute calc (set_charge a (- e0) (mol s)) \<and>
            FormalCharge (atoms (mol (snd (scan_neighbors vl calc a (e0 # es) n i (na # rest) s))) ! a)
              = - e0 \<and>
            bonds (mol (snd (scan_neighbors vl calc a (e0 # es) n i (na # rest) s))) =
              bonds (mol s) \<and>
            trace (snd (scan_neighbors vl calc a (e0 # es) n i (na # rest) s)) =
              trace s @
              [EvGetTotalValence na, EvGetValenceList (AtomicNum (atoms (mol s) ! na)),
               EvSetFormalCharge a (- e0), EvUpdatePropertyCache False]) \<and>
         (rest \<noteq> [] \<longrightarrow>
            scan_neighbors vl calc a (e0 # es) n i (na # rest) s =
              scan_neighbors vl calc a (e0 # es) n (Suc i) rest (snd (electrons_of vl na s)) \<and>
            mol (snd (electrons_of vl na s)) = mol s \<and>
            trace (snd (electrons_of vl na s)) =
              trace s @
              [EvGetTotalValence na, EvGetValenceList (AtomicNum (atoms (mol s) ! na))])"
proof -
  from assms(3) have c: "common_electrons (e0 # es) nes = None"
    by (simp only: common_electrons_None)
  note e = electrons_of_Inr [OF assms(2)]
  note sc = scan_none_case [OF assms(2) c, of calc a n i rest]
  show ?thesis
  proof (cases rest)
    case Nil
    with assms(4) have "i = n" by simp
    with Nil assms(1) e sc show ?thesis
      by (simp add: scan_neighbors.simps(1) charge_recompute charge_set_charge)
  next
    case (Cons x xs)
    with assms(4) have "i \<noteq> n" by auto
    with Cons e sc show ?thesis
      by simp
  qed
qed

text \<open>
  The nitrogen of \<open>nh2\<close> has the deficit 1 and each hydrogen the deficit 0. At the first
  hydrogen the scan goes on; at the second, the last, the nitrogen gets the charge \<open>-1\<close>.
\<close>

theorem empty_intersection_fallback_witness:
  "0 < length (atoms (mol (start nh2))) \<and>
   fst (electrons_of table 1 (start nh2)) = Inr [0] \<and>
   fst (electrons_of table 2 (start nh2)) = Inr [0] \<and>
   set [1 :: int] \<inter> set [0] = {} \<and>
   scan_neighbors table bond_sum 0 [1] 2 1 [1, 2] (start nh2) =
     scan_neighbors table bond_sum 0 [1] 2 2 [2] (snd (electrons_of table 1 (start nh2))) \<and>
   mol (snd (electrons_of table 1 (start nh2))) = nh2 \<and>
   fst (scan_neighbors table bond_sum 0 [1] 2 2 [2] (start nh2)) = None \<and>
   FormalCharge (atoms (mol (snd (scan_neighbors table bond_sum 0 [1] 2 2 [2] (start nh2)))) ! 0)
     = - 1 \<and>
   bonds (mol (snd (scan_neighbors table bond_sum 0 [1] 2 2 [2] (start nh2)))) = bonds nh2 \<and>
   trace (snd (scan_neighbors table bond_sum 0 [1] 2 2 [2] (start nh2))) =
     [EvGetTotalValence 2, EvGetValenceList 1, EvSetFormalCharge 0 (- 1),
      EvUpdatePropertyCache False]"
proof -
  have h1: "0 < length (atoms (mol (start nh2)))"
    by (simp add: start_def nh2_def)
  have h2: "fst (electrons_of table 1 (start nh2)) = Inr [0]"
    by (simp add: start_def nh2_def mk_atom_def electrons_of_def GetAtomWithIdx_def table_def)
  have h3: "fst (electrons_of table 2 (start nh2)) = Inr [0]"
    by (simp add: start_def nh2_def mk_atom_def electrons_of_def GetAtomWithIdx_def table_def)
  have h4: "set [1 :: int] \<inter> set [0] = {}"
    by simp
  have p1: "1 + length [2 :: nat] = 2" and p2: "2 + length ([] :: nat list) = 2"
    by simp_all
  have c: "mol (start nh2) = nh2" "trace (start nh2) = []"
    "AtomicNum (atoms nh2 ! 2) = Suc 0" "atoms nh2 \<noteq> []"
    by (simp_all add: start_def nh2_def mk_atom_def)
  from empty_intersection_fallback [OF h1 h2 h4 p1, of bond_sum]
  have first: "scan_neighbors table bond_sum 0 [1] 2 1 [1, 2] (start nh2) =
      scan_neighbors table bond_sum 0 [1] 2 2 [2] (snd (electrons_of table 1 (start nh2))) \<and>
     mol (snd (electrons_of table 1 (start nh2))) = nh2"
    by (simp add: c numeral_2_eq_2)
  from empty_intersection_fallback [OF h1 h3 h4 p2, of bond_sum]
  have second: "fst (scan_neighbors table bond_sum 0 [1] 2 2 [2] (start nh2)) = None \<and>
     FormalCharge (atoms (mol (snd (scan_neighbors table bond_sum 0 [1] 2 2 [2] (start nh2)))) ! 0)
       = - 1 \<and>
     bonds (mol (snd (scan_neighbors table bond_sum 0 [1] 2 2 [2] (start nh2)))) = bonds nh2 \<and>
     trace (snd (scan_neighbors table bond_sum 0 [1] 2 2 [2] (start nh2))) =
       [EvGetTotalValence 2, EvGetValenceList 1, EvSetFormalCharge 0 (- 1),
        EvUpdatePropertyCache False]"
    by (simp add: c charge_recompute charge_set_charge)
  from h1 h2 h3 h4 first second show ?thesis
    by blast
qed

lemma state_eqI: "mol s = m \<Longrightarrow> trace s = t \<Longrightarrow> (s :: state) = \<lparr>mol = m, trace = t\<rparr>"
  by (cases s) simp

lemma electrons_of_reads:
  assumes "electrons_of vl i s = (r, s1)"
  shows "\<exists>reads. list_all is_read reads \<and> s1 = \<lparr>mol = mol s, trace = trace s @ reads\<rparr>"
proof (cases "i < length (atoms (mol s))")
  case True
  note st = electrons_of_state [OF assms True]
  show ?thesis
  proof (cases "TotalValence (atoms (mol s) ! i)")
    case None
    with st have "s1 = \<lparr>mol = mol s, trace = trace s @ [EvGetTotalValence i]\<rparr>"
      by (intro state_eqI) simp_all
    moreover have "list_all is_read [EvGetTotalValence i]"
      by (simp add: is_read_def)
    ultimately show ?thesis by blast
  next
    case (Some v)
    with st have "s1 = \<lparr>mol = mol s, trace = trace s @
        [EvGetTotalValence i, EvGetValenceList (AtomicNum (atoms (mol s) ! i))]\<rparr>"
      by (intro state_eqI) simp_all
    moreover have "list_all is_read
        [EvGetTotalValence i, EvGetValenceList (AtomicNum (atoms (mol s) ! i))]"
      by (simp add: is_read_def)
    ultimately show ?thesis by blast
  qed
next
  case False
  with assms have "s1 = s"
    by (simp add: electrons_of_def GetAtomWithIdx_def)
  then have "s1 = \<lparr>mol = mol s, trace = trace s @ []\<rparr>"
    by (intro state_eqI) simp_all
  moreover have "list_all is_read []" by simp
  ultimately show ?thesis by blast
qed

lemma visit_effectI_none:
  "list_all is_read reads \<Longrightarrow> s' = \<lparr>mol = mol s, trace = trace s @ reads\<rparr> \<Longrightarrow>
   visit_effect calc a s s'"
  unfolding visit_effect_def by (rule exI [of _ reads]) simp

lemma visit_effectI_update:
  "list_all is_read reads \<Longrightarrow>
   s' = \<lparr>mol = recompute calc (mol s),
         trace = trace s @ reads @ [EvUpdatePropertyCache False]\<rparr> \<Longrightarrow>
   visit_effect calc a s s'"
  unfolding visit_effect_def by (rule exI [of _ reads]) simp

lemma visit_effectI_charge:
  "list_all is_read reads \<Longrightarrow>
   s' = \<lparr>mol = recompute calc (set_charge a c (mol s)),
         trace = trace s @ reads @ [EvSetFormalCharge a c, EvUpdatePropertyCache False]\<rparr> \<Longrightarrow>
   visit_effect calc a s s'"
  unfolding visit_effect_def
  apply (rule exI [of _ reads])
  apply (rule conjI, assumption)
  apply (rule disjI2, rule disjI2, rule disjI1)
  apply (rule exI [of _ c], assumption)
  done

lemma visit_effectI_bond:
  "list_all is_read reads \<Longrightarrow> t = DOUBLE \<or> t = TRIPLE \<Longrightarrow> k < length (bonds (mol s)) \<Longrightarrow>
   connects (bonds (mol s) ! k) a j \<Longrightarrow>
   s' = \<lparr>mol = recompute calc (set_type k t (mol s)),
         trace = trace s @ reads @ [EvSetBondType a j t, EvUpdatePropertyCache False]\<rparr> \<Longrightarrow>
   visit_effect calc a s s'"
  unfolding visit_effect_def
  apply (rule exI [of _ reads])
  apply (rule conjI, assumption)
  apply (rule disjI2, rule disjI2, rule disjI2)
  apply (rule exI [of _ j], rule exI [of _ k], rule exI [of _ t])
  apply (intro conjI; assumption)
  done

lemma visit_effect_cases:
  assumes "visit_effect calc a s s'"
  obtains reads where "list_all is_read reads" "s' = \<lparr>mol = mol s, trace = trace s @ reads\<rparr>"
  | reads where "list_all is_read reads"
      "s' = \<lparr>mol = recompute calc (mol s),
            trace = trace s @ reads @ [EvUpdatePropertyCache False]\<rparr>"
  | reads c where "list_all is_read reads"
      "s' = \<lparr>mol = recompute calc (set_charge a c (mol s)),
            trace = trace s @ reads @ [EvSetFormalCharge a c, EvUpdatePropertyCache False]\<rparr>"
  | reads j k t where "list_all is_read reads" "t = DOUBLE \<or> t = TRIPLE"
      "k < length (bonds (mol s))" "connects (bonds (mol s) ! k) a j"
      "s' = \<lparr>mol = recompute calc (set_type k t (mol s)),
            trace = trace s @ reads @ [EvSetBondType a j t, EvUpdatePropertyCache False]\<rparr>"
  using assms unfolding visit_effect_def by (elim exE conjE disjE) blast+

lemma visit_effect_reads:
  assumes "list_all is_read rd" and "s1 = \<lparr>mol = mol s, trace = trace s @ rd\<rparr>"
    and "visit_effect calc a s1 s'"
  shows "visit_effect calc a s s'"
  using assms(3)
proof (cases rule: visit_effect_cases)
  case (1 reads)
  with assms(1,2) show ?thesis
    by (intro visit_effectI_none [of "rd @ reads"]) simp_all
next
  case (2 reads)
  with assms(1,2) show ?thesis
    by (intro visit_effectI_update [of "rd @ reads"]) simp_all
next
  case (3 reads c)
  with assms(1,2) show ?thesis
    by (intro visit_effectI_charge [of "rd @ reads" _ _ _ c]) simp_all
next
  case (4 reads j k t)
  with assms(1,2) show ?thesis
    by (intro visit_effectI_bond [of "rd @ reads" t k _ _ j]) simp_all
qed

lemma visit_effect_refl: "visit_effect calc a s s"
  by (rule visit_effectI_none [of "[]"]) (simp_all add: state_eqI)

lemma visit_effect_update: "visit_effect calc a s (UpdatePropertyCache calc s)"
  by (rule visit_effectI_update [of "[]"]) (simp_all add: state_eqI)

lemma visit_effect_charge:
  "visit_effect calc a s (UpdatePropertyCache calc (SetFormalCharge a c s))"
  by (rule visit_effectI_charge [of "[]" _ _ _ c]) (simp_all add: state_eqI)

lemma visit_effect_bond:
  assumes "GetBondBetweenAtoms (mol s) a j = Some k" and "t = DOUBLE \<or> t = TRIPLE"
  shows "visit_effect calc a s (UpdatePropertyCache calc (SetBondType a j k t s))"
  using GetBondBetweenAtoms_Some [OF assms(1)] assms(2)
  by (intro visit_effectI_bond [of "[]" t k _ _ j]) (simp_all add: state_eqI)

lemma scan_effect:
  "i + length ns = Suc n \<Longrightarrow> scan_neighbors vl calc a es n i ns s = (r, s') \<Longrightarrow>
   visit_effect calc a s s'"
proof (induction ns arbitrary: i s)
  case Nil
  then show ?case by (simp add: scan_neighbors.simps visit_effect_refl)
next
  case (Cons na rest)
  obtain q s1 where e: "electrons_of vl na s = (q, s1)"
    by (cases "electrons_of vl na s")
  from electrons_of_reads [OF e] obtain rd where rd: "list_all is_read rd"
    "s1 = \<lparr>mol = mol s, trace = trace s @ rd\<rparr>"
    by blast
  have "visit_effect calc a s1 s'"
  proof (cases q)
    case (Inl err)
    with Cons.prems(2) e have "s' = s1" by (simp add: scan_neighbors.simps)
    then show ?thesis by (simp add: visit_effect_refl)
  next
    case (Inr nes)
    show ?thesis
    proof (cases "common_electrons es nes")
      case None
      show ?thesis
      proof (cases "i = n")
        case True
        with Cons.prems(1) have rest: "rest = []" by simp
        show ?thesis
        proof (cases es)
          case Nil
          with Cons.prems(2) e Inr None True have "s' = s1"
            by (simp add: scan_neighbors.simps)
          then show ?thesis by (simp add: visit_effect_refl)
        next
          case (Cons e0 es')
          with Cons.prems(2) e Inr None True rest
          have "s' = UpdatePropertyCache calc (SetFormalCharge a (- e0) s1)"
            by (simp add: scan_neighbors.simps)
          then show ?thesis by (simp add: visit_effect_charge)
        qed
      next
        case False
        with Cons.prems(2) e Inr None
        have "scan_neighbors vl calc a es n (Suc i) rest s1 = (r, s')"
          by (simp add: scan_neighbors.simps)
        moreover from Cons.prems(1) have "Suc i + length rest = Suc n" by simp
        ultimately show ?thesis by (rule Cons.IH [rotated])
      qed
    next
      case (Some c)
      show ?thesis
      proof (cases "c = 0")
        case True
        with Cons.prems(2) e Inr Some
        have "scan_neighbors vl calc a es n (Suc i) rest s1 = (r, s')"
          by (simp add: scan_neighbors.simps)
        moreover from Cons.prems(1) have "Suc i + length rest = Suc n" by simp
        ultimately show ?thesis by (rule Cons.IH [rotated])
      next
        case False
        show ?thesis
        proof (cases "GetBondBetweenAtoms (mol s1) a na")
          case None
          with Cons.prems(2) e Inr Some False
          have "s' = s1 \<or> s' = UpdatePropertyCache calc s1"
            by (auto simp: scan_neighbors.simps Let_def split: if_splits)
          then show ?thesis
            using visit_effect_refl [of calc a s1] visit_effect_update [of calc a s1] by auto
        next
          case (Some k)
          with Cons.prems(2) e Inr \<open>common_electrons es nes = Some c\<close> False
          have s': "s' = UpdatePropertyCache calc
                (if c = 1 then SetBondType a na k DOUBLE s1
                 else if c = 2 then SetBondType a na k TRIPLE s1 else s1)"
            by (auto simp: scan_neighbors.simps Let_def split: if_splits)
          show ?thesis
            unfolding s'
            using visit_effect_bond [OF Some, of DOUBLE calc]
              visit_effect_bond [OF Some, of TRIPLE calc] visit_effect_update [of calc a s1]
            by simp
        qed
      qed
    qed
  qed
  with rd show ?case
    by (rule visit_effect_reads)
qed

lemma visit_atom_effect:
  assumes "visit_atom vl calc a s = (r, s')"
  shows "visit_effect calc a s s'"
proof -
  obtain q s1 where e: "electrons_of vl a s = (q, s1)"
    by (cases "electrons_of vl a s")
  from electrons_of_reads [OF e] obtain rd where rd: "list_all is_read rd"
    "s1 = \<lparr>mol = mol s, trace = trace s @ rd\<rparr>"
    by blast
  have "visit_effect calc a s1 s'"
  proof (cases q)
    case (Inl err)
    with assms e have "s' = s1" by (simp add: visit_atom_def)
    then show ?thesis by (simp add: visit_effect_refl)
  next
    case (Inr es)
    show ?thesis
    proof (cases "length es = 1 \<and> hd es < 0")
      case True
      with assms e Inr
      have "s' = UpdatePropertyCache calc (SetFormalCharge a (- hd es) s1)"
        by (simp add: visit_atom_def)
      then show ?thesis by (simp add: visit_effect_charge)
    next
      case False
      with assms e Inr
      have "scan_neighbors vl calc a es (length (GetNeighbors (mol s1) a)) 1
              (GetNeighbors (mol s1) a) s1 = (r, s')"
        by (auto simp: visit_atom_def Let_def)
      then show ?thesis
        by (rule scan_effect [rotated]) simp
    qed
  qed
  with rd show ?thesis
    by (rule visit_effect_reads)
qed

lemma reads_no_mutation: "list_all is_read reads \<Longrightarrow> filter is_mutation reads = []"
  by (induction reads) (auto simp: is_read_def is_mutation_def split: event.splits)

lemma dropWhile_reads:
  "list_all is_read reads \<Longrightarrow> dropWhile is_read (reads @ tail) = dropWhile is_read tail"
  by (induction reads) auto

lemma dropWhile_all_reads: "list_all is_read reads \<Longrightarrow> dropWhile is_read reads = []"
  by (induction reads) auto

section \<open>One corrective action per visit\<close>

text \<open>
  Claim C6. The visit of an atom \<open>a\<close> only extends the log, and what it adds has at most
  one write: after the reads comes nothing, or the permissive recompute alone, or one
  formal charge written on \<open>a\<close> with the recompute, or one bond type written on a bond of
  \<open>a\<close> with the recompute, which ends the visit. So a visit never writes both a charge
  and a bond type: its bonds or its formal charges are as before.
\<close>

theorem one_corrective_action_per_visit:
  "take (length (trace s)) (trace (snd (visit_atom vl calc a s))) = trace s \<and>
   length (filter is_mutation (events_since s (snd (visit_atom vl calc a s)))) \<le> 1 \<and>
   action_tail a (dropWhile is_read (events_since s (snd (visit_atom vl calc a s)))) \<and>
   (bonds (mol (snd (visit_atom vl calc a s))) = bonds (mol s) \<or>
    map FormalCharge (atoms (mol (snd (visit_atom vl calc a s)))) =
      map FormalCharge (atoms (mol s)))"
proof -
  have "visit_effect calc a s (snd (visit_atom vl calc a s))"
    by (rule visit_atom_effect [of vl calc a s "fst (visit_atom vl calc a s)"]) simp
  then show ?thesis
  proof (cases rule: visit_effect_cases)
    case (1 reads)
    then show ?thesis
      by (simp add: events_since_def reads_no_mutation dropWhile_all_reads)
  next
    case (2 reads)
    then show ?thesis
      by (simp add: events_since_def reads_no_mutation dropWhile_reads is_mutation_def
          is_read_def)
  next
    case (3 reads c)
    then show ?thesis
      by (simp add: events_since_def reads_no_mutation dropWhile_reads is_mutation_def
          is_read_def)
  next
    case (4 reads j k t)
    then show ?thesis
      by (simp add: events_since_def reads_no_mutation dropWhile_reads is_mutation_def
          is_read_def)
  qed
qed

text \<open>
  The visit of the carbon of formaldehyde writes one bond type and no charge; the visit of
  the nitrogen of \<open>nh2\<close> writes one charge and no bond type.
\<close>

theorem one_corrective_action_per_visit_witness:
  "events_since (start h2co) (snd (visit_atom table bond_sum 0 (start h2co))) =
     [EvGetTotalValence 0, EvGetValenceList 6, EvGetTotalValence 1, EvGetValenceList 8,
      EvSetBondType 0 1 DOUBLE, EvUpdatePropertyCache False] \<and>
   length (filter is_mutation
     (events_since (start h2co) (snd (visit_atom table bond_sum 0 (start h2co))))) \<le> 1 \<and>
   map FormalCharge (atoms (mol (snd (visit_atom table bond_sum 0 (start h2co))))) =
     map FormalCharge (atoms (mol (start h2co))) \<and>
   events_since (start nh2) (snd (visit_atom table bond_sum 0 (start nh2))) =
     [EvGetTotalValence 0, EvGetValenceList 7, EvGetTotalValence 1, EvGetValenceList 1,
      EvGetTotalValence 2, EvGetValenceList 1, EvSetFormalCharge 0 (- 1),
      EvUpdatePropertyCache False] \<and>
   length (filter is_mutation
     (events_since (start nh2) (snd (visit_atom table bond_sum 0 (start nh2))))) \<le> 1 \<and>
   bonds (mol (snd (visit_atom table bond_sum 0 (start nh2)))) = bonds (mol (start nh2))"
proof -
  have a: "events_since (start h2co) (snd (visit_atom table bond_sum 0 (start h2co))) =
     [EvGetTotalValence 0, EvGetValenceList 6, EvGetTotalValence 1, EvGetValenceList 8,
      EvSetBondType 0 1 DOUBLE, EvUpdatePropertyCache False]"
    by code_simp
  have b: "events_since (start nh2) (snd (visit_atom table bond_sum 0 (start nh2))) =
     [EvGetTotalValence 0, EvGetValenceList 7, EvGetTotalValence 1, EvGetValenceList 1,
      EvGetTotalValence 2, EvGetValenceList 1, EvSetFormalCharge 0 (- 1),
      EvUpdatePropertyCache False]"
    by code_simp
  have c: "bonds (mol (snd (visit_atom table bond_sum 0 (start h2co)))) \<noteq> bonds (mol (start h2co))"
    by code_simp
  have d: "bonds (mol (snd (visit_atom table bond_sum 0 (start nh2)))) = bonds (mol (start nh2))"
    by code_simp
  from one_corrective_action_per_visit [of "start h2co" table bond_sum 0] c
  have "length (filter is_mutation
     (events_since (start h2co) (snd (visit_atom table bond_sum 0 (start h2co))))) \<le> 1 \<and>
   map FormalCharge (atoms (mol (snd (visit_atom table bond_sum 0 (start h2co))))) =
     map FormalCharge (atoms (mol (start h2co)))"
    by simp
  moreover from one_corrective_action_per_visit [of "start nh2" table bond_sum 0]
  have "length (filter is_mutation
     (events_since (start nh2) (snd (visit_atom table bond_sum 0 (start nh2))))) \<le> 1"
    by simp
  ultimately show ?thesis
    using a b d by blast
qed

lemma cache_state_append:
  "cache_state b (xs @ ys) =
     (case cache_state b xs of None \<Rightarrow> None | Some b' \<Rightarrow> cache_state b' ys)"
  by (induction b xs rule: cache_state.induct) auto

lemma recompute_next_append:
  "recompute_next xs \<Longrightarrow> (case xs of [] \<Rightarrow> True | _ \<Rightarrow> \<not> is_mutation (last xs)) \<Longrightarrow>
   recompute_next ys \<Longrightarrow> recompute_next (xs @ ys)"
proof (induction xs rule: recompute_next.induct)
  case 1
  then show ?case by simp
next
  case (2 e)
  then show ?case by (cases ys) auto
next
  case (3 e e' es)
  then show ?case by auto
qed

lemma settled_Nil: "settled []"
  by (simp add: settled_def)

lemma settled_append: "settled xs \<Longrightarrow> settled ys \<Longrightarrow> settled (xs @ ys)"
  unfolding settled_def
  by (auto simp: cache_state_append recompute_next_append split: list.splits)

lemma settled_reads: "list_all is_read reads \<Longrightarrow> settled reads"
proof (induction reads)
  case Nil
  show ?case by (rule settled_Nil)
next
  case (Cons e reads)
  then have "settled [e]"
    by (cases e) (auto simp: settled_def is_read_def is_mutation_def)
  moreover from Cons have "settled reads" by simp
  ultimately show ?case
    using settled_append [of "[e]" reads] by simp
qed

lemma settled_tails:
  "settled [EvUpdatePropertyCache False]"
  "settled [EvSetFormalCharge a c, EvUpdatePropertyCache False]"
  "settled [EvSetBondType a j t, EvUpdatePropertyCache False]"
  "settled [EvSanitizeMol]"
  "settled [EvNextAtom a]"
  by (simp_all add: settled_def is_mutation_def)

lemma visit_effect_settled:
  assumes "visit_effect calc a s s'" and "settled (trace s)"
  shows "settled (trace s')"
  using assms(1)
proof (cases rule: visit_effect_cases)
  case (1 reads)
  with assms(2) show ?thesis
    by (simp add: settled_append settled_reads)
next
  case (2 reads)
  with assms(2) show ?thesis
    by (simp add: settled_append settled_reads settled_tails)
next
  case (3 reads c)
  with assms(2) show ?thesis
    by (simp add: settled_append settled_reads settled_tails)
next
  case (4 reads j k t)
  with assms(2) show ?thesis
    by (simp add: settled_append settled_reads settled_tails)
qed

lemma visit_atoms_settled:
  "visit_atoms vl calc as s = (r, s') \<Longrightarrow> settled (trace s) \<Longrightarrow> settled (trace s')"
proof (induction as arbitrary: s)
  case Nil
  then show ?case by simp
next
  case (Cons a as)
  obtain q s1 where v: "visit_atom vl calc a (log (EvNextAtom a) s) = (q, s1)"
    by (cases "visit_atom vl calc a (log (EvNextAtom a) s)")
  from Cons.prems(2) have "settled (trace (log (EvNextAtom a) s))"
    by (simp add: settled_append settled_tails)
  from visit_effect_settled [OF visit_atom_effect [OF v] this]
  have s1: "settled (trace s1)" .
  show ?case
  proof (cases q)
    case None
    with Cons.prems(1) v have "visit_atoms vl calc as s1 = (r, s')" by simp
    from Cons.IH [OF this s1] show ?thesis .
  next
    case (Some e)
    with Cons.prems(1) v have "s' = s1" by simp
    with s1 show ?thesis by simp
  qed
qed

lemma repair_pass_settled: "settled (trace (snd (repair_pass vl calc m)))"
  using visit_atoms_settled [of vl calc "[0..<length (atoms m)]" "\<lparr>mol = m, trace = []\<rparr>"
      "fst (repair_pass vl calc m)" "snd (repair_pass vl calc m)"]
  by (simp add: repair_pass_def settled_Nil)

lemma trace_update_bonds_and_charges:
  "trace (snd (update_bonds_and_charges vl calc sanitize m)) =
     (case fst (repair_pass vl calc m) of
        Some e \<Rightarrow> trace (snd (repair_pass vl calc m))
      | None \<Rightarrow> trace (snd (repair_pass vl calc m)) @ [EvSanitizeMol])"
  by (cases "repair_pass vl calc m")
    (auto simp: update_bonds_and_charges_def Let_def split: option.splits sum.splits)

section \<open>Recompute after every write\<close>

text \<open>
  Claim C8. In the log of a whole call, no total valence is read while a written charge
  or bond type has not been followed by a recompute, the cache is fresh when the call
  ends, and every write of a charge or bond type has the permissive recompute as the very
  next event.
\<close>

theorem recompute_follows_every_write:
  "cache_state False (trace (snd (update_bonds_and_charges vl calc sanitize m))) = Some False \<and>
   recompute_next (trace (snd (update_bonds_and_charges vl calc sanitize m)))"
proof -
  have "settled (trace (snd (update_bonds_and_charges vl calc sanitize m)))"
    using repair_pass_settled [of vl calc m]
      settled_append [OF repair_pass_settled [of vl calc m] settled_tails(4)]
    by (simp add: trace_update_bonds_and_charges split: option.splits)
  then show ?thesis
    by (simp add: settled_def)
qed

text \<open>
  The log of the call on \<open>cpn\<close>, with its two bond writes; a log that reads a total valence
  right after a write is rejected.
\<close>

theorem recompute_follows_every_write_witness:
  "trace (snd (update_bonds_and_charges table bond_sum accept cpn)) =
     [EvNextAtom 0, EvGetTotalValence 0, EvGetValenceList 6, EvGetTotalValence 1,
      EvGetValenceList 15, EvSetBondType 0 1 DOUBLE, EvUpdatePropertyCache False,
      EvNextAtom 1, EvGetTotalValence 1, EvGetValenceList 15, EvGetTotalValence 2,
      EvGetValenceList 7, EvSetBondType 1 2 TRIPLE, EvUpdatePropertyCache False,
      EvNextAtom 2, EvGetTotalValence 2, EvGetValenceList 7, EvGetTotalValence 1,
      EvGetValenceList 15, EvSanitizeMol] \<and>
   cache_state False (trace (snd (update_bonds_and_charges table bond_sum accept cpn))) =
     Some False \<and>
   recompute_next (trace (snd (update_bonds_and_charges table bond_sum accept cpn))) \<and>
   cache_state False [EvSetBondType 0 1 DOUBLE, EvGetTotalValence 1] = None \<and>
   \<not> recompute_next [EvSetBondType 0 1 DOUBLE, EvGetTotalValence 1]"
proof -
  have "trace (snd (update_bonds_and_charges table bond_sum accept cpn)) =
     [EvNextAtom 0, EvGetTotalValence 0, EvGetValenceList 6, EvGetTotalValence 1,
      EvGetValenceList 15, EvSetBondType 0 1 DOUBLE, EvUpdatePropertyCache False,
      EvNextAtom 1, EvGetTotalValence 1, EvGetValenceList 15, EvGetTotalValence 2,
      EvGetValenceList 7, EvSetBondType 1 2 TRIPLE, EvUpdatePropertyCache False,
      EvNextAtom 2, EvGetTotalValence 2, EvGetValenceList 7, EvGetTotalValence 1,
      EvGetValenceList 15, EvSanitizeMol]"
    by code_simp
  moreover have "cache_state False [EvSetBondType 0 1 DOUBLE, EvGetTotalValence 1] = None"
    "\<not> recompute_next [EvSetBondType 0 1 DOUBLE, EvGetTotalValence 1]"
    by (simp_all add: is_mutation_def)
  ultimately show ?thesis
    using recompute_follows_every_write [of table bond_sum accept cpn] by blast
qed

lemma bonds_step_refl: "bonds_step bs bs"
  by (simp add: bonds_step_def)

lemma bonds_step_trans:
  assumes "bonds_step bs bs'" and "bonds_step bs' bs''"
  shows "bonds_step bs bs''"
proof -
  from assms have len: "length bs' = length bs" "length bs'' = length bs"
    by (simp_all add: bonds_step_def)
  have "BeginAtomIdx (bs'' ! k) = BeginAtomIdx (bs ! k) \<and>
        EndAtomIdx (bs'' ! k) = EndAtomIdx (bs ! k) \<and>
        (bond_type (bs'' ! k) = bond_type (bs ! k) \<or> bond_type (bs'' ! k) = DOUBLE \<or>
         bond_type (bs'' ! k) = TRIPLE)" if k: "k < length bs" for k
  proof -
    from assms(1) k have 1: "BeginAtomIdx (bs' ! k) = BeginAtomIdx (bs ! k)"
      "EndAtomIdx (bs' ! k) = EndAtomIdx (bs ! k)"
      "bond_type (bs' ! k) = bond_type (bs ! k) \<or> bond_type (bs' ! k) = DOUBLE \<or>
       bond_type (bs' ! k) = TRIPLE"
      by (simp_all add: bonds_step_def)
    from assms(2) k len have 2: "BeginAtomIdx (bs'' ! k) = BeginAtomIdx (bs' ! k)"
      "EndAtomIdx (bs'' ! k) = EndAtomIdx (bs' ! k)"
      "bond_type (bs'' ! k) = bond_type (bs' ! k) \<or> bond_type (bs'' ! k) = DOUBLE \<or>
       bond_type (bs'' ! k) = TRIPLE"
      by (simp_all add: bonds_step_def)
    from 1 2 show ?thesis by auto
  qed
  with len show ?thesis
    by (simp add: bonds_step_def)
qed

lemma bonds_step_set_type:
  assumes "t = DOUBLE \<or> t = TRIPLE"
  shows "bonds_step (bonds m) (bonds (set_type k t m))"
proof -
  have "BeginAtomIdx (bonds (set_type k t m) ! j) = BeginAtomIdx (bonds m ! j) \<and>
        EndAtomIdx (bonds (set_type k t m) ! j) = EndAtomIdx (bonds m ! j) \<and>
        (bond_type (bonds (set_type k t m) ! j) = bond_type (bonds m ! j) \<or>
         bond_type (bonds (set_type k t m) ! j) = DOUBLE \<or>
         bond_type (bonds (set_type k t m) ! j) = TRIPLE)" if j: "j < length (bonds m)" for j
  proof (cases "j = k")
    case True
    with j assms show ?thesis by (auto simp: set_type_def)
  next
    case False
    then show ?thesis by (simp add: set_type_def)
  qed
  then show ?thesis
    by (simp add: bonds_step_def)
qed

lemma visit_effect_bonds:
  assumes "visit_effect calc a s s'"
  shows "bonds_step (bonds (mol s)) (bonds (mol s'))"
  using assms
proof (cases rule: visit_effect_cases)
  case (1 reads)
  then show ?thesis by (simp add: bonds_step_refl)
next
  case (2 reads)
  then show ?thesis by (simp add: bonds_step_refl)
next
  case (3 reads c)
  then show ?thesis by (simp add: bonds_step_refl)
next
  case (4 reads j k t)
  then show ?thesis by (simp add: bonds_step_set_type)
qed

lemma visit_atoms_bonds:
  "visit_atoms vl calc as s = (r, s') \<Longrightarrow> bonds_step (bonds (mol s)) (bonds (mol s'))"
proof (induction as arbitrary: s)
  case Nil
  then show ?case by (simp add: bonds_step_refl)
next
  case (Cons a as)
  obtain q s1 where v: "visit_atom vl calc a (log (EvNextAtom a) s) = (q, s1)"
    by (cases "visit_atom vl calc a (log (EvNextAtom a) s)")
  from visit_effect_bonds [OF visit_atom_effect [OF v]]
  have b1: "bonds_step (bonds (mol s)) (bonds (mol s1))" by simp
  show ?case
  proof (cases q)
    case None
    with Cons.prems v have "visit_atoms vl calc as s1 = (r, s')" by simp
    from bonds_step_trans [OF b1 Cons.IH [OF this]] show ?thesis .
  next
    case (Some e)
    with Cons.prems v have "s' = s1" by simp
    with b1 show ?thesis by simp
  qed
qed

lemma repair_pass_bonds: "bonds_step (bonds m) (bonds (mol (snd (repair_pass vl calc m))))"
  using visit_atoms_bonds [of vl calc "[0..<length (atoms m)]" "\<lparr>mol = m, trace = []\<rparr>"
      "fst (repair_pass vl calc m)" "snd (repair_pass vl calc m)"]
  by (simp add: repair_pass_def)

section \<open>Bond orders across the pass\<close>

text \<open>
  Claim C4 says that no bond has a lower order after the pass than before it, also for a
  bond that enters the pass as triple. That fails: in \<open>cpn\<close> the carbon and the phosphorus
  enter with a triple bond and share the deficit 1, so the visit of the carbon sets their
  bond to double; the visit of the phosphorus then makes its bond to the nitrogen triple,
  and the bond to the carbon stays double.
\<close>

theorem bond_order_never_decreases_counterexample:
  "recompute bond_sum cpn = cpn \<and>
   wf_mol cpn \<and>
   fst (update_bonds_and_charges table bond_sum accept cpn) = None \<and>
   bond_type (bonds cpn ! 1) = TRIPLE \<and>
   bond_type (bonds (mol (snd (repair_pass table bond_sum cpn))) ! 1) = DOUBLE \<and>
   bond_type (bonds (mol (snd (update_bonds_and_charges table bond_sum accept cpn))) ! 1) =
     DOUBLE \<and>
   order2 (bond_type (bonds (mol (snd (update_bonds_and_charges table bond_sum accept cpn))) ! 1))
     < order2 (bond_type (bonds cpn ! 1))"
  by code_simp

text \<open>
  Claim C4 as amended. The pass keeps the bonds and their atoms, and the type of a bond
  after the pass is its type before, or double, or triple. So the order of a bond that
  enters the pass as single, aromatic or double is not lower after the pass; a bond that
  enters as triple may leave as double.
\<close>

theorem bond_order_after_pass:
  "length (bonds (mol (snd (repair_pass vl calc m)))) = length (bonds m) \<and>
   (\<forall>k<length (bonds m).
      BeginAtomIdx (bonds (mol (snd (repair_pass vl calc m))) ! k) = BeginAtomIdx (bonds m ! k) \<and>
      EndAtomIdx (bonds (mol (snd (repair_pass vl calc m))) ! k) = EndAtomIdx (bonds m ! k) \<and>
      (bond_type (bonds (mol (snd (repair_pass vl calc m))) ! k) = bond_type (bonds m ! k) \<or>
       bond_type (bonds (mol (snd (repair_pass vl calc m))) ! k) = DOUBLE \<or>
       bond_type (bonds (mol (snd (repair_pass vl calc m))) ! k) = TRIPLE) \<and>
      (bond_type (bonds m ! k) \<noteq> TRIPLE \<longrightarrow>
         order2 (bond_type (bonds m ! k)) \<le>
         order2 (bond_type (bonds (mol (snd (repair_pass vl calc m))) ! k))))"
proof -
  let ?bs' = "bonds (mol (snd (repair_pass vl calc m)))"
  from repair_pass_bonds [of m vl calc]
  have len: "length ?bs' = length (bonds m)"
    and step: "\<And>k. k < length (bonds m) \<Longrightarrow>
      BeginAtomIdx (?bs' ! k) = BeginAtomIdx (bonds m ! k) \<and>
      EndAtomIdx (?bs' ! k) = EndAtomIdx (bonds m ! k) \<and>
      (bond_type (?bs' ! k) = bond_type (bonds m ! k) \<or> bond_type (?bs' ! k) = DOUBLE \<or>
       bond_type (?bs' ! k) = TRIPLE)"
    by (simp_all add: bonds_step_def)
  have ord: "order2 t \<le> order2 t'" if "t \<noteq> TRIPLE" "t' = t \<or> t' = DOUBLE \<or> t' = TRIPLE"
    for t t'
    using that by (cases t; cases t') auto
  show ?thesis
    using len step ord by blast
qed

text \<open>
  In \<open>cpn\<close> the bond of the phosphorus to the nitrogen enters as single and leaves as
  triple.
\<close>

theorem bond_order_after_pass_witness:
  "0 < length (bonds cpn) \<and>
   bond_type (bonds cpn ! 0) \<noteq> TRIPLE \<and>
   bond_type (bonds (mol (snd (repair_pass table bond_sum cpn))) ! 0) = TRIPLE \<and>
   order2 (bond_type (bonds cpn ! 0)) \<le>
     order2 (bond_type (bonds (mol (snd (repair_pass table bond_sum cpn))) ! 0)) \<and>
   length (bonds (mol (snd (repair_pass table bond_sum cpn)))) = length (bonds cpn)"
proof -
  have h: "0 < length (bonds cpn)" "bond_type (bonds cpn ! 0) \<noteq> TRIPLE"
    by (simp_all add: cpn_def mk_bond_def)
  have t: "bond_type (bonds (mol (snd (repair_pass table bond_sum cpn))) ! 0) = TRIPLE"
    by code_simp
  from bond_order_after_pass [of table bond_sum cpn] h t show ?thesis
    by blast
qed


lemma wf_mol_neighbors:
  assumes "wf_mol m" and "j \<in> set (GetNeighbors m a)"
  shows "j < length (atoms m)"
proof -
  from assms(2) obtain b where b: "b \<in> set (bonds m)" "j \<in> set (other_end a b)"
    by (auto simp: GetNeighbors_def)
  from assms(1) b(1) have "BeginAtomIdx b < length (atoms m) \<and> EndAtomIdx b < length (atoms m)"
    by (simp add: wf_mol_def list_all_iff)
  with b(2) show ?thesis
    by (auto simp: other_end_def split: if_splits)
qed




lemma cached_recompute [simp]: "cached (recompute calc m)"
  by (simp add: cached_def recompute_def list_all_length)












section \<open>The strict validation and the errors\<close>




lemma is_mutation_simps [simp]:
  "\<not> is_mutation (EvGetTotalValence i)" "\<not> is_mutation (EvGetValenceList z)"
  "is_mutation (EvSetFormalCharge i c)" "is_mutation (EvSetBondType i j t)"
  "\<not> is_mutation (EvUpdatePropertyCache b)" "\<not> is_mutation EvSanitizeMol"
  "\<not> is_mutation (EvNextAtom a)"
  by (simp_all add: is_mutation_def)

lemma all_satisfied_atom:
  assumes "all_satisfied vl m" and "i < length (atoms m)"
  shows "\<exists>vs v. vl (AtomicNum (atoms m ! i)) = Some vs \<and>
           TotalValence (atoms m ! i) = Some v \<and> v \<in> set vs"
proof -
  from assms have "case vl (AtomicNum (atoms m ! i)) of
      None \<Rightarrow> False
    | Some vs \<Rightarrow> (case TotalValence (atoms m ! i) of None \<Rightarrow> False | Some v \<Rightarrow> v \<in> set vs)"
    by (simp add: all_satisfied_def list_all_length)
  then show ?thesis
    by (cases "vl (AtomicNum (atoms m ! i))"; cases "TotalValence (atoms m ! i)") simp_all
qed

lemma satisfied_electrons:
  assumes "all_satisfied vl (mol s)" and "i < length (atoms (mol s))"
  shows "\<exists>es s1. electrons_of vl i s = (Inr es, s1) \<and> 0 \<in> set es \<and> mol s1 = mol s \<and>
           filter is_mutation (trace s1) = filter is_mutation (trace s)"
proof -
  from all_satisfied_atom [OF assms] obtain vs v where
    vs: "vl (AtomicNum (atoms (mol s) ! i)) = Some vs"
      "TotalValence (atoms (mol s) ! i) = Some v" "v \<in> set vs"
    by blast
  from vs(3) have "0 \<in> set (map (\<lambda>x. x - v) vs)"
    by force
  with vs(1,2) assms(2) show ?thesis
    by (simp add: electrons_of_def GetAtomWithIdx_def Let_def)
qed

lemma satisfied_scan:
  assumes "all_satisfied vl (mol s)" and "recompute calc (mol s) = mol s" and "0 \<in> set es"
    and "\<forall>j\<in>set ns. j < length (atoms (mol s))"
  shows "\<exists>s'. scan_neighbors vl calc a es n i ns s = (None, s') \<and> mol s' = mol s \<and>
           filter is_mutation (trace s') = filter is_mutation (trace s)"
  using assms
proof (induction ns arbitrary: i s)
  case Nil
  then show ?case by (simp add: scan_neighbors.simps)
next
  case (Cons na rest)
  from Cons.prems(4) have na: "na < length (atoms (mol s))" by simp
  from satisfied_electrons [OF Cons.prems(1) na] obtain nes s1 where
    e: "electrons_of vl na s = (Inr nes, s1)" and z: "0 \<in> set nes" and m1: "mol s1 = mol s"
    and t1: "filter is_mutation (trace s1) = filter is_mutation (trace s)"
    by blast
  from Cons.prems(3) z have "set es \<inter> set nes \<noteq> {}" by auto
  then obtain c where c: "common_electrons es nes = Some c"
    by (simp add: common_electrons_def Let_def)
  with Cons.prems(3) z have c0: "c \<le> 0"
    by (simp add: common_electrons_Some)
  show ?case
  proof (cases "c = 0")
    case True
    from Cons.IH [of s1 "Suc i"] Cons.prems m1
    obtain s' where "scan_neighbors vl calc a es n (Suc i) rest s1 = (None, s')"
      "mol s' = mol s1" "filter is_mutation (trace s') = filter is_mutation (trace s1)"
      by auto
    with e c True m1 t1 show ?thesis
      by (simp add: scan_neighbors.simps)
  next
    case False
    with c0 have c12: "c \<noteq> 1" "c \<noteq> 2" by simp_all
    with e c False m1 t1 Cons.prems(2) show ?thesis
      by (simp add: scan_neighbors.simps)
  qed
qed

lemma satisfied_visit:
  assumes "all_satisfied vl (mol s)" and "recompute calc (mol s) = mol s" and "wf_mol (mol s)"
    and "a < length (atoms (mol s))"
  shows "\<exists>s'. visit_atom vl calc a s = (None, s') \<and> mol s' = mol s \<and>
           filter is_mutation (trace s') = filter is_mutation (trace s)"
proof -
  from satisfied_electrons [OF assms(1,4)] obtain es s1 where
    e: "electrons_of vl a s = (Inr es, s1)" and z: "0 \<in> set es" and m1: "mol s1 = mol s"
    and t1: "filter is_mutation (trace s1) = filter is_mutation (trace s)"
    by blast
  have nb: "\<not> (length es = 1 \<and> hd es < 0)"
  proof
    assume h: "length es = 1 \<and> hd es < 0"
    then obtain x where "es = [x]" by (cases es) auto
    with z h show False by simp
  qed
  have "\<forall>j\<in>set (GetNeighbors (mol s1) a). j < length (atoms (mol s1))"
    using wf_mol_neighbors [of "mol s1" _ a] assms(3) m1 by auto
  from satisfied_scan [of vl s1 calc es "GetNeighbors (mol s1) a" a
      "length (GetNeighbors (mol s1) a)" 1, OF _ _ z this] assms(1,2) m1
  obtain s' where "scan_neighbors vl calc a es (length (GetNeighbors (mol s1) a)) 1
      (GetNeighbors (mol s1) a) s1 = (None, s')" "mol s' = mol s1"
    "filter is_mutation (trace s') = filter is_mutation (trace s1)"
    by auto
  moreover from nb have "(length es = 1 \<and> hd es < 0) = False"
    by blast
  then have "visit_atom vl calc a s =
      scan_neighbors vl calc a es (length (GetNeighbors (mol s1) a)) 1
        (GetNeighbors (mol s1) a) s1"
    by (simp only: visit_atom_def e prod.case sum.case if_False Let_def)
  ultimately show ?thesis
    using m1 t1 by simp
qed

lemma satisfied_visit_atoms:
  assumes "all_satisfied vl (mol s)" and "recompute calc (mol s) = mol s" and "wf_mol (mol s)"
    and "\<forall>a\<in>set as. a < length (atoms (mol s))"
  shows "\<exists>s'. visit_atoms vl calc as s = (None, s') \<and> mol s' = mol s \<and>
           filter is_mutation (trace s') = filter is_mutation (trace s)"
  using assms
proof (induction as arbitrary: s)
  case Nil
  then show ?case by simp
next
  case (Cons a as)
  let ?s0 = "log (EvNextAtom a) s"
  from Cons.prems have p0: "all_satisfied vl (mol ?s0)" "recompute calc (mol ?s0) = mol ?s0"
    "wf_mol (mol ?s0)" "a < length (atoms (mol ?s0))"
    by simp_all
  from satisfied_visit [OF p0] obtain s1 where
    v: "visit_atom vl calc a ?s0 = (None, s1)" and m1: "mol s1 = mol s"
    and t1: "filter is_mutation (trace s1) = filter is_mutation (trace s)"
    by auto
  from Cons.IH [of s1] Cons.prems m1
  obtain s' where "visit_atoms vl calc as s1 = (None, s')" "mol s' = mol s1"
    "filter is_mutation (trace s') = filter is_mutation (trace s1)"
    by auto
  with v m1 t1 show ?case by simp
qed

section \<open>Idempotence\<close>

text \<open>
  Claim C9 says that a call on a molecule that is already repaired (every deficit list
  contains 0) and passes the strict validation changes no bond order and no formal
  charge. That fails in two ways. In \<open>s2_stale\<close> the cached valences say that both
  sulfurs are satisfied, but they are stale: the first visit ends with a recompute, after
  which the second visit finds the shared deficit 1 and sets the single bond to double.
  On \<open>benzene\<close>, whose cache is up to date, the pass changes nothing, but the strict
  validation that ends the call perceives the ring as aromatic, and the ring bonds leave
  the call with another type than they entered it.
\<close>

theorem repaired_molecule_unchanged_counterexample:
  "all_satisfied table s2_stale \<and> wf_mol s2_stale \<and> accept s2_stale = Inr s2_stale \<and>
   fst (update_bonds_and_charges table bond_sum accept s2_stale) = None \<and>
   bond_type (bonds s2_stale ! 0) = SINGLE \<and>
   bond_type (bonds (mol (snd (repair_pass table bond_sum s2_stale))) ! 0) = DOUBLE \<and>
   bond_type (bonds (mol (snd (update_bonds_and_charges table bond_sum accept s2_stale))) ! 0) =
     DOUBLE \<and>
   all_satisfied table benzene \<and> wf_mol benzene \<and> recompute bond_sum benzene = benzene \<and>
   mol (snd (repair_pass table bond_sum benzene)) = benzene \<and>
   fst (update_bonds_and_charges table bond_sum perceive benzene) = None \<and>
   bond_type (bonds benzene ! 0) = DOUBLE \<and>
   bond_type (bonds (mol (snd (update_bonds_and_charges table bond_sum perceive benzene))) ! 0) =
     AROMATIC"
  by code_simp

text \<open>
  Claim C9 as amended. Let every atom of a well-formed molecule already have one of the
  valences of its element (its deficit list contains 0), and let the cached valences be
  up to date (a recompute leaves the molecule as it is). Then the per-atom pass ends
  without raising, writes no charge and no bond type, and leaves the molecule exactly as
  it was. The call hands this unchanged molecule to the strict validation and ends with
  the validation's failure or with the molecule the validation hands back: what the call
  changes is what the validation itself changes.
\<close>

theorem repaired_molecule_unchanged:
  assumes "all_satisfied vl m" and "recompute calc m = m" and "wf_mol m"
  shows "fst (repair_pass vl calc m) = None \<and>
         mol (snd (repair_pass vl calc m)) = m \<and>
         filter is_mutation (trace (snd (repair_pass vl calc m))) = [] \<and>
         filter is_mutation (trace (snd (update_bonds_and_charges vl calc sanitize m))) = [] \<and>
         (case sanitize m of
            Inl d \<Rightarrow>
              fst (update_bonds_and_charges vl calc sanitize m) = Some (SanitizationFailure d) \<and>
              mol (snd (update_bonds_and_charges vl calc sanitize m)) = m
          | Inr m' \<Rightarrow>
              fst (update_bonds_and_charges vl calc sanitize m) = None \<and>
              mol (snd (update_bonds_and_charges vl calc sanitize m)) = m')"
proof -
  from satisfied_visit_atoms [of vl "\<lparr>mol = m, trace = []\<rparr>" calc "[0..<length (atoms m)]"]
    assms(1-3)
  obtain s' where p: "repair_pass vl calc m = (None, s')" "mol s' = m"
    "filter is_mutation (trace s') = []"
    by (auto simp: repair_pass_def)
  then show ?thesis
    by (simp add: update_bonds_and_charges_def Let_def split: sum.splits)
qed

text \<open>
  Water, with a validation that hands the molecule back as it is: the call returns water.
  Benzene: the pass returns benzene.
\<close>

theorem repaired_molecule_unchanged_witness:
  "all_satisfied table h2o \<and> recompute bond_sum h2o = h2o \<and> wf_mol h2o \<and>
   fst (update_bonds_and_charges table bond_sum accept h2o) = None \<and>
   mol (snd (update_bonds_and_charges table bond_sum accept h2o)) = h2o \<and>
   filter is_mutation (trace (snd (update_bonds_and_charges table bond_sum accept h2o))) = [] \<and>
   all_satisfied table benzene \<and> recompute bond_sum benzene = benzene \<and> wf_mol benzene \<and>
   fst (repair_pass table bond_sum benzene) = None \<and>
   mol (snd (repair_pass table bond_sum benzene)) = benzene"
proof -
  have h1: "all_satisfied table h2o"
    by (simp add: all_satisfied_def h2o_def mk_atom_def table_def)
  have h2: "recompute bond_sum h2o = h2o"
    by code_simp
  have h3: "wf_mol h2o"
    by (simp add: wf_mol_def h2o_def mk_bond_def)
  have b1: "all_satisfied table benzene"
    by (simp add: all_satisfied_def benzene_def mk_atom_def table_def)
  have b2: "recompute bond_sum benzene = benzene"
    by code_simp
  have b3: "wf_mol benzene"
    by (simp add: wf_mol_def benzene_def mk_bond_def)
  from repaired_molecule_unchanged [where sanitize = accept, OF h1 h2 h3]
  have "fst (update_bonds_and_charges table bond_sum accept h2o) = None \<and>
    mol (snd (update_bonds_and_charges table bond_sum accept h2o)) = h2o \<and>
    filter is_mutation (trace (snd (update_bonds_and_charges table bond_sum accept h2o))) = []"
    by (simp add: accept_def)
  moreover from repaired_molecule_unchanged [where sanitize = accept, OF b1 b2 b3]
  have "fst (repair_pass table bond_sum benzene) = None \<and>
    mol (snd (repair_pass table bond_sum benzene)) = benzene"
    by simp
  ultimately show ?thesis
    using h1 h2 h3 b1 b2 b3 by blast
qed

end
